theory Spec2Isabelle
  imports Complex_Main "HOL-Library.Sublist" "HOL-Library.AList" "HOL-Library.Multiset"
begin

section \<open>The bugathon ingestion-and-scoring engine (\<^verbatim>\<open>JiraSyncService\<close>)\<close>

text \<open>
  A shallow embedding of \<^verbatim>\<open>JiraSyncService\<close>: the ticket normalizer inside
  \<^verbatim>\<open>processTickets\<close>, the score aggregator \<^verbatim>\<open>updateUserScores\<close>, the badge
  evaluator \<^verbatim>\<open>calculateBadges\<close>, \<^verbatim>\<open>updateDailyStats\<close>, \<^verbatim>\<open>checkAchievements\<close> with
  \<^verbatim>\<open>grantAchievement\<close>, and the orchestrator \<^verbatim>\<open>syncBugathonData\<close>.

  Conventions of the model.
  \<^item> A JavaScript number is an IEEE 754 double (the type \<open>number\<close> below), with the
    rounding of \<^verbatim>\<open>+\<close> and \<^verbatim>\<open>*\<close>; a counter that only ever starts at 0 and is
    incremented is a \<^typ>\<open>nat\<close>.
  \<^item> A string is a \<^typ>\<open>string\<close>; case conversion is modelled on the ASCII letters.
  \<^item> An ISO-8601 timestamp string is represented by the instant it denotes, in
    milliseconds since the epoch.
  \<^item> \<^verbatim>\<open>x || d\<close> on a string or number yields \<^verbatim>\<open>d\<close> when \<^verbatim>\<open>x\<close> is undefined, the
    empty string, 0 or NaN; a string is truthy when it is not empty.
\<close>

subsection \<open>Numbers\<close>

text \<open>
  A JavaScript number: a finite double, given by the rational it denotes, one of the two
  infinities, or NaN. The two zeros are one value \<open>Num 0\<close>: the program never divides
  and never prints a number, so it cannot tell them apart. The operations below return
  doubles; the type also holds \<open>Num q\<close> for a rational \<open>q\<close> that is not a double, and
  what is proved for every number holds for the doubles among them.
\<close>

datatype number = Num rat | Infinity | MinusInfinity | NaN

text \<open>
  Rounding a rational to the nearest double, ties to even. \<open>ilog2 a\<close> is the
  exponent of \<open>a\<close>, the largest \<open>e\<close> with \<open>2 ^ e \<le> a\<close>; a double has 53
  significant bits, so its unit in the last place is \<open>2 ^ (e - 52)\<close>, and \<open>2 ^ -1074\<close>
  below the smallest normal exponent -1022. \<open>MAX_VALUE\<close> is the largest finite double;
  a rounded value beyond it is an infinity.
\<close>

definition pow2 :: "int \<Rightarrow> rat" where
  "pow2 k = (if 0 \<le> k then 2 ^ nat k else 1 / 2 ^ nat (- k))"

function bit_length :: "int \<Rightarrow> int" where
  "bit_length n = (if n \<le> 0 then 0 else 1 + bit_length (n div 2))"
  by pat_completeness auto
termination by (relation "measure nat") auto

declare bit_length.simps [simp del]

definition ilog2 :: "rat \<Rightarrow> int" where
  "ilog2 a = (let (p, q) = quotient_of a;
                  n = bit_length p - bit_length q
              in if pow2 n \<le> a then n else n - 1)"

definition round_half_even :: "rat \<Rightarrow> int" where
  "round_half_even x =
     (let f = \<lfloor>x\<rfloor>; r = x - of_int f
      in if r < 1 / 2 then f else if 1 / 2 < r then f + 1 else if even f then f else f + 1)"

definition MAX_VALUE :: rat where
  "MAX_VALUE = 179769313486231570814527423731704356798070567525844996598917476803157260780028538760589558632766878171540458953514382464234321326889464182768467546703537516986049910576551282076245490090389328944075868508455133942304583236903222948165808559332123348274797826204144723168738177180919299881250404026184124858368"

definition round_to_double :: "rat \<Rightarrow> number" where
  "round_to_double q =
     (if q = 0 then Num 0
      else let a = \<bar>q\<bar>;
               e = max (ilog2 a) (- 1022);
               ulp = pow2 (e - 52);
               r = of_int (round_half_even (a / ulp)) * ulp
           in if MAX_VALUE < r then (if 0 < q then Infinity else MinusInfinity)
              else Num (if 0 < q then r else - r))"

text \<open>
  \<^verbatim>\<open>0\<close>, \<^verbatim>\<open>+\<close>, \<^verbatim>\<open>*\<close>, \<^verbatim>\<open><=\<close> and \<^verbatim>\<open><\<close> on numbers. A comparison with NaN is false.
\<close>

instantiation number :: "{zero, plus, times, ord}"
begin

definition zero_number :: number where
  "zero_number = Num 0"

fun plus_number :: "number \<Rightarrow> number \<Rightarrow> number" where
  "plus_number (Num a) (Num b) = round_to_double (a + b)"
| "plus_number NaN _ = NaN"
| "plus_number _ NaN = NaN"
| "plus_number Infinity MinusInfinity = NaN"
| "plus_number MinusInfinity Infinity = NaN"
| "plus_number Infinity _ = Infinity"
| "plus_number _ Infinity = Infinity"
| "plus_number MinusInfinity _ = MinusInfinity"
| "plus_number _ MinusInfinity = MinusInfinity"

fun times_number :: "number \<Rightarrow> number \<Rightarrow> number" where
  "times_number (Num a) (Num b) = round_to_double (a * b)"
| "times_number NaN _ = NaN"
| "times_number _ NaN = NaN"
| "times_number (Num a) Infinity = (if a = 0 then NaN else if 0 < a then Infinity else MinusInfinity)"
| "times_number (Num a) MinusInfinity = (if a = 0 then NaN else if 0 < a then MinusInfinity else Infinity)"
| "times_number Infinity (Num b) = (if b = 0 then NaN else if 0 < b then Infinity else MinusInfinity)"
| "times_number MinusInfinity (Num b) = (if b = 0 then NaN else if 0 < b then MinusInfinity else Infinity)"
| "times_number Infinity Infinity = Infinity"
| "times_number MinusInfinity MinusInfinity = Infinity"
| "times_number Infinity MinusInfinity = MinusInfinity"
| "times_number MinusInfinity Infinity = MinusInfinity"

fun less_eq_number :: "number \<Rightarrow> number \<Rightarrow> bool" where
  "less_eq_number (Num a) (Num b) = (a \<le> b)"
| "less_eq_number NaN _ = False"
| "less_eq_number _ NaN = False"
| "less_eq_number MinusInfinity _ = True"
| "less_eq_number _ Infinity = True"
| "less_eq_number _ _ = False"

fun less_number :: "number \<Rightarrow> number \<Rightarrow> bool" where
  "less_number (Num a) (Num b) = (a < b)"
| "less_number NaN _ = False"
| "less_number _ NaN = False"
| "less_number Infinity _ = False"
| "less_number _ MinusInfinity = False"
| "less_number _ _ = True"

instance ..

end

declare plus_number.simps(1) [simp del]

declare times_number.simps(1) [simp del]

text \<open>The number a decimal literal denotes, as in \<^verbatim>\<open>0.5\<close> or in a JSON text.\<close>

definition js :: "rat \<Rightarrow> number" where
  "js q = round_to_double q"

text \<open>A number is falsy when it is 0 or NaN.\<close>

definition falsy :: "number \<Rightarrow> bool" where
  "falsy n = (n = Num 0 \<or> n = NaN)"

subsection \<open>Data model\<close>

type_synonym timestamp = nat

text \<open>The \<^verbatim>\<open>{ accountId, displayName }\<close> objects of a Jira ticket.\<close>

record JiraUser =
  accountId :: string
  displayName :: string

text \<open>
  \<^verbatim>\<open>interface JiraTicket\<close>. The nested object \<^verbatim>\<open>fields\<close> is flattened: the field
  \<open>fields_status_statusCategory_key\<close> is \<^verbatim>\<open>ticket.fields.status.statusCategory.key\<close>.
  Optional members are options.
\<close>

record JiraTicket =
  ticket_key :: string
  fields_summary :: string
  fields_status_name :: string
  fields_status_statusCategory_key :: string
  fields_reporter :: JiraUser
  fields_assignee :: "JiraUser option"
  fields_customfield_10312 :: "JiraUser option"
  fields_customfield_10016 :: "number option"
  fields_created :: timestamp
  fields_resolutiondate :: "timestamp option"
  fields_priority_name :: string
  fields_issuetype_name :: string

text \<open>A row of the collection \<^verbatim>\<open>bugathon_tickets\<close>, as \<^verbatim>\<open>processTickets\<close> builds it.\<close>

record bugathon_ticket =
  key :: string
  summary :: string
  is_new_bug :: bool
  status :: string
  status_category :: string
  reporter_id :: string
  reporter_name :: string
  assignee_id :: "string option"
  assignee_name :: string
  sprint_points :: number
  reporter_points :: number
  assignee_points :: number
  created_at :: timestamp
  resolved_at :: "timestamp option"
  priority :: string
  issue_type :: string
  last_updated :: timestamp

subsection \<open>Strings\<close>

definition lower_letters :: string where
  "lower_letters = ''abcdefghijklmnopqrstuvwxyz''"

definition upper_letters :: string where
  "upper_letters = ''ABCDEFGHIJKLMNOPQRSTUVWXYZ''"

definition toUpperCase_char :: "char \<Rightarrow> char" where
  "toUpperCase_char c =
     (case map_of (zip lower_letters upper_letters) c of None \<Rightarrow> c | Some u \<Rightarrow> u)"

definition toLowerCase_char :: "char \<Rightarrow> char" where
  "toLowerCase_char c =
     (case map_of (zip upper_letters lower_letters) c of None \<Rightarrow> c | Some l \<Rightarrow> l)"

definition toUpperCase :: "string \<Rightarrow> string" where
  "toUpperCase s = map toUpperCase_char s"

definition toLowerCase :: "string \<Rightarrow> string" where
  "toLowerCase s = map toLowerCase_char s"

text \<open>\<^verbatim>\<open>s.includes(m)\<close>: \<open>m\<close> occurs in \<open>s\<close> at some position.\<close>

fun includes_str :: "string \<Rightarrow> string \<Rightarrow> bool" where
  "includes_str [] m = (m = [])"
| "includes_str (c # s) m = (prefix m (c # s) \<or> includes_str s m)"

text \<open>Truthiness of a string.\<close>

definition truthy :: "string \<Rightarrow> bool" where
  "truthy s = (s \<noteq> [])"

text \<open>\<^verbatim>\<open>x || d\<close> for an optional number and for an optional string.\<close>

definition num_or :: "number option \<Rightarrow> number \<Rightarrow> number" where
  "num_or x d = (case x of None \<Rightarrow> d | Some n \<Rightarrow> if falsy n then d else n)"

definition str_or :: "string option \<Rightarrow> string \<Rightarrow> string" where
  "str_or x d = (case x of None \<Rightarrow> d | Some s \<Rightarrow> if truthy s then s else d)"

definition str_or_null :: "string option \<Rightarrow> string option" where
  "str_or_null x = (case x of None \<Rightarrow> None | Some s \<Rightarrow> if truthy s then Some s else None)"

subsection \<open>The ticket normalizer\<close>

text \<open>
  The function mapped over the fetched tickets in \<^verbatim>\<open>processTickets\<close>. The clock reading
  \<^verbatim>\<open>new Date().toISOString()\<close> is the parameter \<open>now\<close>.
\<close>

definition processTicket :: "timestamp \<Rightarrow> JiraTicket \<Rightarrow> bugathon_ticket" where
  "processTicket now ticket =
     (let isNewBug = includes_str (toUpperCase (fields_summary ticket)) ''[BUGATHON NEW]'';
          sprintPoints = num_or (fields_customfield_10016 ticket) 0;
          isDone = (fields_status_statusCategory_key ticket = ''done'')
      in \<lparr> key = ticket_key ticket,
           summary = fields_summary ticket,
           is_new_bug = isNewBug,
           status = fields_status_name ticket,
           status_category = fields_status_statusCategory_key ticket,
           reporter_id = accountId (fields_reporter ticket),
           reporter_name = displayName (fields_reporter ticket),
           assignee_id = str_or_null (map_option accountId (fields_assignee ticket)),
           assignee_name = str_or (map_option displayName (fields_assignee ticket)) ''Unassigned'',
           sprint_points = sprintPoints,
           reporter_points = (if isNewBug then sprintPoints * Num (1 / 2) else 0),
           assignee_points = (if isDone then sprintPoints else 0),
           created_at = fields_created ticket,
           resolved_at = fields_resolutiondate ticket,
           priority = fields_priority_name ticket,
           issue_type = fields_issuetype_name ticket,
           last_updated = now \<rparr>)"

text \<open>
  What the specification calls containing the marker case-insensitively: some
  contiguous piece of the summary agrees with the marker letter by letter once both are
  case-folded.
\<close>

definition contains_ci :: "string \<Rightarrow> string \<Rightarrow> bool" where
  "contains_ci s m =
     (\<exists>pre mid suf. s = pre @ mid @ suf \<and> toLowerCase mid = toLowerCase m)"

subsection \<open>The badge evaluator\<close>

text \<open>
  Every label of the source starts with a pictographic icon, then a space, then the words.
  The icon is given byte for byte as it stands in the source file.
\<close>

definition icon_hunter_elite :: string where
  "icon_hunter_elite = [CHR 0xEF, CHR 0xA3, CHR 0xBF, CHR 0xC3, CHR 0xBC, CHR 0xC3, CHR 0xAE, CHR 0xC3, CHR 0xA7]"

definition icon_hunter :: string where
  "icon_hunter = [CHR 0xEF, CHR 0xA3, CHR 0xBF, CHR 0xC3, CHR 0xBC, CHR 0xC3, CHR 0xAE, CHR 0xC3, CHR 0xA9]"

definition icon_slayer_supreme :: string where
  "icon_slayer_supreme = [CHR 0xE2, CHR 0x80, CHR 0x9A, CHR 0xC3, CHR 0xB6, CHR 0xC3, CHR 0xAE, CHR 0xC3, CHR 0x94, CHR 0xE2, CHR 0x88, CHR 0x8F, CHR 0xC3, CHR 0xA8]"

definition icon_slayer :: string where
  "icon_slayer = [CHR 0xEF, CHR 0xA3, CHR 0xBF, CHR 0xC3, CHR 0xBC, CHR 0xC3, CHR 0xB3, CHR 0xC2, CHR 0xB0, CHR 0xC3, CHR 0x94, CHR 0xE2, CHR 0x88, CHR 0x8F, CHR 0xC3, CHR 0xA8]"

definition icon_point_master :: string where
  "icon_point_master = [CHR 0xEF, CHR 0xA3, CHR 0xBF, CHR 0xC3, CHR 0xBC, CHR 0xC3, CHR 0xAB, CHR 0xC3, CHR 0xAB]"

definition icon_rising_star :: string where
  "icon_rising_star = [CHR 0xE2, CHR 0x80, CHR 0x9A, CHR 0xE2, CHR 0x89, CHR 0xA0, CHR 0xC3, CHR 0xAA]"

definition icon_all_rounder :: string where
  "icon_all_rounder = [CHR 0xEF, CHR 0xA3, CHR 0xBF, CHR 0xC3, CHR 0xBC, CHR 0xC3, CHR 0xA9, CHR 0xC3, CHR 0x98]"

definition icon_speed_demon :: string where
  "icon_speed_demon = [CHR 0xEF, CHR 0xA3, CHR 0xBF, CHR 0xC3, CHR 0xBC, CHR 0xC3, CHR 0xB6, CHR 0xC3, CHR 0x84]"

definition icon_participant :: string where
  "icon_participant = [CHR 0xEF, CHR 0xA3, CHR 0xBF, CHR 0xC3, CHR 0xBC, CHR 0xC3, CHR 0xA5, CHR 0xC2, CHR 0xB1]"

definition icon_champion :: string where
  "icon_champion = [CHR 0xEF, CHR 0xA3, CHR 0xBF, CHR 0xC3, CHR 0xBC, CHR 0xC3, CHR 0xA8, CHR 0xC3, CHR 0x9C]"

definition Bug_Hunter_Elite :: string where
  "Bug_Hunter_Elite = icon_hunter_elite @ '' Bug Hunter Elite''"

definition Bug_Hunter :: string where
  "Bug_Hunter = icon_hunter @ '' Bug Hunter''"

definition Bug_Slayer_Supreme :: string where
  "Bug_Slayer_Supreme = icon_slayer_supreme @ '' Bug Slayer Supreme''"

definition Bug_Slayer :: string where
  "Bug_Slayer = icon_slayer @ '' Bug Slayer''"

definition Point_Master :: string where
  "Point_Master = icon_point_master @ '' Point Master''"

definition Rising_Star :: string where
  "Rising_Star = icon_rising_star @ '' Rising Star''"

definition All_Rounder :: string where
  "All_Rounder = icon_all_rounder @ '' All-Rounder''"

definition Speed_Demon :: string where
  "Speed_Demon = icon_speed_demon @ '' Speed Demon''"

definition Participant :: string where
  "Participant = icon_participant @ '' Participant''"

definition Current_Champion :: string where
  "Current_Champion = icon_champion @ '' Current Champion''"

text \<open>
  The object kept per user in the \<^verbatim>\<open>Map\<close> of \<^verbatim>\<open>updateUserScores\<close>. The fields
  \<open>user_reporter_points\<close> and \<open>user_assignee_points\<close> are the source's
  \<^verbatim>\<open>reporter_points\<close> and \<^verbatim>\<open>assignee_points\<close> of a user (renamed apart from the ticket's).
  A row of \<^verbatim>\<open>user_scores\<close> is that object once \<^verbatim>\<open>badges\<close> and \<^verbatim>\<open>updated_at\<close> are set.
\<close>

record accumulator =
  user_name :: string
  bugs_reported :: nat
  bugs_fixed :: nat
  user_reporter_points :: number
  user_assignee_points :: number
  total_points :: number

record user_score = accumulator +
  badges :: "string list"
  updated_at :: timestamp

text \<open>\<^verbatim>\<open>calculateBadges(user)\<close>; \<^verbatim>\<open>badges.push(b)\<close> appends.\<close>

definition calculateBadges :: "'a accumulator_scheme \<Rightarrow> string list" where
  "calculateBadges user =
     (let badges = [];
          badges = (if bugs_reported user \<ge> 10 then badges @ [Bug_Hunter_Elite]
                    else if bugs_reported user \<ge> 5 then badges @ [Bug_Hunter]
                    else badges);
          badges = (if bugs_fixed user \<ge> 10 then badges @ [Bug_Slayer_Supreme]
                    else if bugs_fixed user \<ge> 5 then badges @ [Bug_Slayer]
                    else badges);
          badges = (if total_points user \<ge> Num 100 then badges @ [Point_Master]
                    else if total_points user \<ge> Num 50 then badges @ [Rising_Star]
                    else badges);
          badges = (if bugs_reported user > 0 \<and> bugs_fixed user > 0
                    then badges @ [All_Rounder] else badges);
          badges = (if bugs_fixed user \<ge> 3 then badges @ [Speed_Demon] else badges)
      in if length badges > 0 then badges else [Participant])"

subsection \<open>The score aggregator: the fold over the tickets\<close>

text \<open>
  \<^verbatim>\<open>userScores\<close> is a JavaScript \<^verbatim>\<open>Map\<close>: an association list in insertion order.
  \<^verbatim>\<open>has\<close> is \<open>map_of m k \<noteq> None\<close>, \<^verbatim>\<open>get\<close> is \<open>map_of\<close>, and \<^verbatim>\<open>set\<close> is
  \<^const>\<open>AList.update\<close>, which replaces the value of a key in place and adds a new key at
  the end. The objects in the map are mutable, so \<^verbatim>\<open>user.bugs_reported++\<close> writes the
  changed object back under its key.
\<close>

type_synonym userScoresMap = "(string \<times> accumulator) list"

definition newUser :: "string \<Rightarrow> accumulator" where
  "newUser name = \<lparr> user_name = name, bugs_reported = 0, bugs_fixed = 0,
     user_reporter_points = 0, user_assignee_points = 0, total_points = 0 \<rparr>"

text \<open>The block under \<^verbatim>\<open>// Process reporter points\<close>.\<close>

definition creditReporter :: "userScoresMap \<Rightarrow> bugathon_ticket \<Rightarrow> userScoresMap" where
  "creditReporter userScores ticket =
     (if is_new_bug ticket \<and> truthy (reporter_name ticket) then
        (let userScores =
               (if map_of userScores (reporter_name ticket) = None
                then AList.update (reporter_name ticket) (newUser (reporter_name ticket)) userScores
                else userScores);
             user = the (map_of userScores (reporter_name ticket))
         in AList.update (reporter_name ticket)
              (user\<lparr> bugs_reported := bugs_reported user + 1,
                     user_reporter_points := user_reporter_points user + reporter_points ticket \<rparr>)
              userScores)
      else userScores)"

text \<open>The block under \<^verbatim>\<open>// Process assignee points\<close>.\<close>

definition creditAssignee :: "userScoresMap \<Rightarrow> bugathon_ticket \<Rightarrow> userScoresMap" where
  "creditAssignee userScores ticket =
     (if status_category ticket = ''done'' \<and> assignee_name ticket \<noteq> ''Unassigned'' then
        (let userScores =
               (if map_of userScores (assignee_name ticket) = None
                then AList.update (assignee_name ticket) (newUser (assignee_name ticket)) userScores
                else userScores);
             user = the (map_of userScores (assignee_name ticket))
         in AList.update (assignee_name ticket)
              (user\<lparr> bugs_fixed := bugs_fixed user + 1,
                     user_assignee_points := user_assignee_points user + assignee_points ticket \<rparr>)
              userScores)
      else userScores)"

text \<open>The body of \<^verbatim>\<open>tickets.forEach\<close>, and the whole loop.\<close>

definition forEach_body :: "userScoresMap \<Rightarrow> bugathon_ticket \<Rightarrow> userScoresMap" where
  "forEach_body userScores ticket = creditAssignee (creditReporter userScores ticket) ticket"

definition accumulateScores :: "bugathon_ticket list \<Rightarrow> userScoresMap" where
  "accumulateScores tickets = foldl forEach_body [] tickets"

text \<open>The function mapped over \<^verbatim>\<open>userScores.values()\<close>.\<close>

definition finalizeUser :: "timestamp \<Rightarrow> accumulator \<Rightarrow> user_score" where
  "finalizeUser now user =
     (let user = user\<lparr> total_points := user_reporter_points user + user_assignee_points user \<rparr>
      in \<lparr> user_name = user_name user,
           bugs_reported = bugs_reported user,
           bugs_fixed = bugs_fixed user,
           user_reporter_points = user_reporter_points user,
           user_assignee_points = user_assignee_points user,
           total_points = total_points user,
           badges = calculateBadges user,
           updated_at = now \<rparr>)"

definition scoresArray :: "timestamp \<Rightarrow> bugathon_ticket list \<Rightarrow> user_score list" where
  "scoresArray now tickets = map (finalizeUser now) (map snd (accumulateScores tickets))"

subsection \<open>The persistence store and the environment of a run\<close>

record daily_stat =
  date :: nat
  bugs_created :: nat
  daily_bugs_fixed :: nat
  points_earned :: number
  active_users :: nat

record achievement =
  ach_user_name :: string
  badge_name :: string
  badge_icon :: string
  description :: string
  earned_at :: timestamp

text \<open>The requests a run can issue, in program order.\<close>

datatype call =
    FetchJira
  | UpsertTickets
  | SelectTickets | UpsertScores
  | SelectToday | SelectFixed | UpsertDaily
  | SelectUsers
  | SelectAchievement | InsertAchievement

text \<open>
  The four collections, and \<open>calls\<close>: the requests issued so far, oldest first. The
  program never reads \<open>calls\<close>; it records which requests a run made.
\<close>

record store =
  bugathon_tickets :: "bugathon_ticket list"
  user_scores :: "user_score list"
  daily_stats :: "daily_stat list"
  achievements :: "achievement list"
  calls :: "call list"

text \<open>
  The values a step can throw, by what the \<^verbatim>\<open>catch\<close> block of \<^verbatim>\<open>syncBugathonData\<close> does
  with them: an error made by axios, for which \<^verbatim>\<open>axios.isAxiosError\<close> holds
  (\<open>TransportError\<close>); the error object of the store client, or any other value that is
  neither null nor undefined and that \<^verbatim>\<open>JSON.stringify\<close> can serialise (\<open>StoreError\<close>); a
  \<^verbatim>\<open>TypeError\<close> raised by the runtime; an object, not made by axios, that
  \<^verbatim>\<open>JSON.stringify\<close> refuses because its structure is circular (\<open>Circular\<close>); and
  \<^verbatim>\<open>null\<close> or \<^verbatim>\<open>undefined\<close> (\<open>Nullish\<close>).
\<close>

datatype error =
    TransportError string
  | StoreError string
  | TypeError string
  | Circular string
  | Nullish

text \<open>
  How a request to the store ends: it is carried out and answers
  \<^verbatim>\<open>{ data, error: null }\<close> (\<open>Works\<close>); it answers \<^verbatim>\<open>{ data: null, error }\<close> and changes
  nothing (\<open>Fails\<close>); or the awaited promise rejects, which is an exception at the
  \<^verbatim>\<open>await\<close> (\<open>Rejects\<close>). The only step that reads \<^verbatim>\<open>error\<close> is \<^verbatim>\<open>processTickets\<close>, whose
  \<^verbatim>\<open>if (error) throw error\<close> throws it unless it is \<^verbatim>\<open>null\<close> or \<^verbatim>\<open>undefined\<close>.
\<close>

datatype fate = Works | Fails error | Rejects error

datatype stage = Normalizing | ScoringUsers | AggregatingDaily | CheckingAchievements

text \<open>
  The environment of one run: what \<^verbatim>\<open>axios.get\<close> does (it throws, or it returns the
  issues), the fate of each request to the store, and the clock reading
  \<^verbatim>\<open>new Date()\<close> in each stage.
\<close>

record env =
  jira :: "error + JiraTicket list"
  fate :: "call \<Rightarrow> fate"
  clock :: "stage \<Rightarrow> timestamp"

definition request :: "call \<Rightarrow> store \<Rightarrow> store" where
  "request c s = s\<lparr> calls := calls s @ [c] \<rparr>"

text \<open>
  Modelled from the spec: the store interface \<^verbatim>\<open>upsert(records, conflictKey)\<close> of the
  external persistence client. A record whose key is already stored overwrites the
  stored row as a whole; a record with a new key is inserted.
\<close>

definition upsert1 :: "('r \<Rightarrow> 'k) \<Rightarrow> 'r list \<Rightarrow> 'r \<Rightarrow> 'r list" where
  "upsert1 k table row =
     (if k row \<in> k ` set table
      then map (\<lambda>r. if k r = k row then row else r) table
      else table @ [row])"

definition upsert :: "('r \<Rightarrow> 'k) \<Rightarrow> 'r list \<Rightarrow> 'r list \<Rightarrow> 'r list" where
  "upsert k table rows = foldl (upsert1 k) table rows"

text \<open>
  Modelled from the spec: the store's filtered reads. \<^verbatim>\<open>.gte(column, today)\<close> keeps the
  rows whose timestamp is at or after the start of the day \<open>today\<close> (a row without a
  timestamp is not kept); \<^verbatim>\<open>.eq(column, v)\<close> keeps the rows that hold \<open>v\<close>;
  \<^verbatim>\<open>.single()\<close> answers the row when exactly one row is selected and no data otherwise.
\<close>

definition ms_per_day :: nat where
  "ms_per_day = 86400000"

definition gte_day :: "timestamp option \<Rightarrow> nat \<Rightarrow> bool" where
  "gte_day t today = (case t of None \<Rightarrow> False | Some ms \<Rightarrow> today * ms_per_day \<le> ms)"

definition single :: "'r list \<Rightarrow> 'r option" where
  "single selected = (case selected of [r] \<Rightarrow> Some r | _ \<Rightarrow> None)"

text \<open>\<^verbatim>\<open>new Date().toISOString().split("T")[0]\<close>: the UTC calendar day of the clock.\<close>

definition today_of :: "timestamp \<Rightarrow> nat" where
  "today_of now = now div ms_per_day"

text \<open>\<^verbatim>\<open>new Set(xs).size\<close>.\<close>

definition Set_size :: "'a list \<Rightarrow> nat" where
  "Set_size xs = length (remdups xs)"

subsection \<open>The steps of a run\<close>

text \<open>
  A step takes the store and returns the exception it threw, if any, with the store as
  it left it.
\<close>

definition fetchJiraTickets :: "env \<Rightarrow> store \<Rightarrow> (error + JiraTicket list) \<times> store" where
  "fetchJiraTickets e s = (jira e, request FetchJira s)"

definition processTickets :: "env \<Rightarrow> JiraTicket list \<Rightarrow> store \<Rightarrow> error option \<times> store" where
  "processTickets e tickets s =
     (let processedTickets = map (processTicket (clock e Normalizing)) tickets;
          s = request UpsertTickets s
      in case fate e UpsertTickets of
           Rejects err \<Rightarrow> (Some err, s)
         | Fails err \<Rightarrow> (if err = Nullish then None else Some err, s)
         | Works \<Rightarrow>
             (None, s\<lparr> bugathon_tickets := upsert key (bugathon_tickets s) processedTickets \<rparr>))"

definition updateUserScores :: "env \<Rightarrow> store \<Rightarrow> error option \<times> store" where
  "updateUserScores e s =
     (let s = request SelectTickets s
      in case fate e SelectTickets of
           Rejects err \<Rightarrow> (Some err, s)
         | Fails err \<Rightarrow> (None, s)
         | Works \<Rightarrow>
             (let tickets = bugathon_tickets s;
                  rows = scoresArray (clock e ScoringUsers) tickets;
                  s = request UpsertScores s
              in case fate e UpsertScores of
                   Rejects err \<Rightarrow> (Some err, s)
                 | Fails err \<Rightarrow> (None, s)
                 | Works \<Rightarrow> (None, s\<lparr> user_scores := upsert user_name (user_scores s) rows \<rparr>)))"

text \<open>
  \<^verbatim>\<open>updateDailyStats\<close>. A read that fails leaves its \<^verbatim>\<open>data\<close> null, and
  \<^verbatim>\<open>todayTickets?.length || 0\<close> and its siblings then yield 0 and the empty list.
  \<^verbatim>\<open>fixedToday?.reduce(...) || 0\<close> also yields 0 when the reduced sum is 0 or NaN.
\<close>

definition dailyStats :: "nat \<Rightarrow> bugathon_ticket list option \<Rightarrow> bugathon_ticket list option \<Rightarrow> daily_stat" where
  "dailyStats today todayTickets fixedToday =
     \<lparr> date = today,
       bugs_created = (case todayTickets of None \<Rightarrow> 0 | Some ts \<Rightarrow> length ts),
       daily_bugs_fixed = (case fixedToday of None \<Rightarrow> 0 | Some ts \<Rightarrow> length ts),
       points_earned =
         num_or (map_option (\<lambda>ts. foldl (\<lambda>sum t. sum + assignee_points t) 0 ts) fixedToday) 0,
       active_users =
         Set_size ((case todayTickets of None \<Rightarrow> [] | Some ts \<Rightarrow> map reporter_name ts)
                 @ (case fixedToday of None \<Rightarrow> [] | Some ts \<Rightarrow> map assignee_name ts)) \<rparr>"

definition updateDailyStats :: "env \<Rightarrow> store \<Rightarrow> error option \<times> store" where
  "updateDailyStats e s =
     (let today = today_of (clock e AggregatingDaily);
          s = request SelectToday s
      in case fate e SelectToday of
           Rejects err \<Rightarrow> (Some err, s)
         | r1 \<Rightarrow>
             (let todayTickets =
                    (if r1 = Works
                     then Some (filter (\<lambda>t. gte_day (Some (created_at t)) today) (bugathon_tickets s))
                     else None);
                  s = request SelectFixed s
              in case fate e SelectFixed of
                   Rejects err \<Rightarrow> (Some err, s)
                 | r2 \<Rightarrow>
                     (let fixedToday =
                            (if r2 = Works
                             then Some (filter (\<lambda>t. status_category t = ''done'' \<and> gte_day (resolved_at t) today)
                                          (bugathon_tickets s))
                             else None);
                          stats = dailyStats today todayTickets fixedToday;
                          s = request UpsertDaily s
                      in case fate e UpsertDaily of
                           Rejects err \<Rightarrow> (Some err, s)
                         | Fails err \<Rightarrow> (None, s)
                         | Works \<Rightarrow> (None, s\<lparr> daily_stats := upsert date (daily_stats s) [stats] \<rparr>))))"

definition grantAchievement :: "env \<Rightarrow> string \<Rightarrow> string \<Rightarrow> string \<Rightarrow> store \<Rightarrow> error option \<times> store" where
  "grantAchievement e userName badge descr s =
     (let s = request SelectAchievement s
      in case fate e SelectAchievement of
           Rejects err \<Rightarrow> (Some err, s)
         | r \<Rightarrow>
             (let existing =
                    (if r = Works
                     then single (filter (\<lambda>a. ach_user_name a = userName \<and> badge_name a = badge)
                                    (achievements s))
                     else None)
              in if existing = None then
                   (let s = request InsertAchievement s
                    in case fate e InsertAchievement of
                         Rejects err \<Rightarrow> (Some err, s)
                       | Fails err \<Rightarrow> (None, s)
                       | Works \<Rightarrow>
                           (None, s\<lparr> achievements := achievements s @
                              [\<lparr> ach_user_name = userName,
                                 badge_name = badge,
                                 badge_icon = takeWhile (\<lambda>c. c \<noteq> CHR '' '') badge,
                                 description = descr,
                                 earned_at = clock e CheckingAchievements \<rparr>] \<rparr>))
                 else (None, s)))"

text \<open>
  Modelled from the spec: the store's \<^verbatim>\<open>.order("total_points", { ascending: false })\<close>.
  The rows come highest total first, NaN before every other value; among equal totals
  the stored order is kept.
\<close>

definition ranks_before :: "number \<Rightarrow> number \<Rightarrow> bool" where
  "ranks_before a b = (a = NaN \<or> (b \<noteq> NaN \<and> b \<le> a))"

fun insert_desc :: "user_score \<Rightarrow> user_score list \<Rightarrow> user_score list" where
  "insert_desc u [] = [u]"
| "insert_desc u (v # vs) =
     (if ranks_before (total_points u) (total_points v) then u # v # vs
      else v # insert_desc u vs)"

definition order_desc :: "user_score list \<Rightarrow> user_score list" where
  "order_desc rows = foldr insert_desc rows []"

text \<open>\<^verbatim>\<open>checkAchievements\<close>.\<close>

definition checkAchievements :: "env \<Rightarrow> store \<Rightarrow> error option \<times> store" where
  "checkAchievements e s =
     (let s = request SelectUsers s
      in case fate e SelectUsers of
           Rejects err \<Rightarrow> (Some err, s)
         | Fails err \<Rightarrow> (None, s)
         | Works \<Rightarrow>
             (case order_desc (user_scores s) of
                [] \<Rightarrow> (None, s)
              | u # _ \<Rightarrow> grantAchievement e (user_name u) Current_Champion ''Leading the bugathon!'' s))"

subsection \<open>The orchestrator\<close>

datatype sync_result = Success nat | Failure error

text \<open>
  The \<^verbatim>\<open>catch\<close> block of \<^verbatim>\<open>syncBugathonData\<close>. For an error made by axios it logs
  members read with \<^verbatim>\<open>?.\<close> and returns \<^verbatim>\<open>{ success: false, error }\<close>. For any other
  value it first evaluates \<^verbatim>\<open>JSON.stringify(error, null, 2)\<close>, which throws a
  \<^verbatim>\<open>TypeError\<close> on a circular structure, and then \<^verbatim>\<open>JSON.stringify(error.response)\<close>,
  where reading \<^verbatim>\<open>.response\<close> of \<^verbatim>\<open>null\<close> or \<^verbatim>\<open>undefined\<close> throws a \<^verbatim>\<open>TypeError\<close>;
  only then does it return. An exception thrown inside the block leaves the function:
  the promise it returned rejects (\<open>Inl\<close>). The console output itself is not modelled.
\<close>

definition isAxiosError :: "error \<Rightarrow> bool" where
  "isAxiosError err = (case err of TransportError _ \<Rightarrow> True | _ \<Rightarrow> False)"

definition JSON_stringify :: "error \<Rightarrow> error option" where
  "JSON_stringify v =
     (case v of Circular _ \<Rightarrow> Some (TypeError ''Converting circular structure to JSON'')
      | _ \<Rightarrow> None)"

definition read_response :: "error \<Rightarrow> error option" where
  "read_response v =
     (case v of Nullish \<Rightarrow> Some (TypeError ''Cannot read properties of null (reading response)'')
      | _ \<Rightarrow> None)"

definition catch_block :: "error \<Rightarrow> error + sync_result" where
  "catch_block err =
     (if isAxiosError err then Inr (Failure err)
      else case JSON_stringify err of
             Some thrown \<Rightarrow> Inl thrown
           | None \<Rightarrow>
               (case read_response err of
                  Some thrown \<Rightarrow> Inl thrown
                | None \<Rightarrow> Inr (Failure err)))"

text \<open>
  \<^verbatim>\<open>syncBugathonData\<close>: the \<^verbatim>\<open>try\<close> block runs the five steps in order, and the first
  exception leaves it for the \<^verbatim>\<open>catch\<close> block. The result is \<open>Inr\<close> of the object
  returned, or \<open>Inl\<close> of the exception with which the call itself ends.
\<close>

definition syncBugathonData :: "env \<Rightarrow> store \<Rightarrow> (error + sync_result) \<times> store" where
  "syncBugathonData e s =
     (case fetchJiraTickets e s of
        (Inl err, s) \<Rightarrow> (catch_block err, s)
      | (Inr tickets, s) \<Rightarrow>
     (case processTickets e tickets s of
        (Some err, s) \<Rightarrow> (catch_block err, s)
      | (None, s) \<Rightarrow>
     (case updateUserScores e s of
        (Some err, s) \<Rightarrow> (catch_block err, s)
      | (None, s) \<Rightarrow>
     (case updateDailyStats e s of
        (Some err, s) \<Rightarrow> (catch_block err, s)
      | (None, s) \<Rightarrow>
     (case checkAchievements e s of
        (Some err, s) \<Rightarrow> (catch_block err, s)
      | (None, s) \<Rightarrow> (Inr (Success (length tickets)), s))))))"

section \<open>Notions used in the statements\<close>

subsection \<open>Badges\<close>

text \<open>The labels in the order in which \<^verbatim>\<open>calculateBadges\<close> can push them.\<close>

definition badge_order :: "string list" where
  "badge_order = [Bug_Hunter_Elite, Bug_Hunter, Bug_Slayer_Supreme, Bug_Slayer, Point_Master,
     Rising_Star, All_Rounder, Speed_Demon, Participant]"

text \<open>The five categories, each contributing at most one label.\<close>

definition hunter_part :: "'a accumulator_scheme \<Rightarrow> string list" where
  "hunter_part u = (if bugs_reported u \<ge> 10 then [Bug_Hunter_Elite]
                    else if bugs_reported u \<ge> 5 then [Bug_Hunter] else [])"

definition slayer_part :: "'a accumulator_scheme \<Rightarrow> string list" where
  "slayer_part u = (if bugs_fixed u \<ge> 10 then [Bug_Slayer_Supreme]
                    else if bugs_fixed u \<ge> 5 then [Bug_Slayer] else [])"

definition points_part :: "'a accumulator_scheme \<Rightarrow> string list" where
  "points_part u = (if total_points u \<ge> Num 100 then [Point_Master]
                    else if total_points u \<ge> Num 50 then [Rising_Star] else [])"

definition versatility_part :: "'a accumulator_scheme \<Rightarrow> string list" where
  "versatility_part u = (if bugs_reported u > 0 \<and> bugs_fixed u > 0 then [All_Rounder] else [])"

definition velocity_part :: "'a accumulator_scheme \<Rightarrow> string list" where
  "velocity_part u = (if bugs_fixed u \<ge> 3 then [Speed_Demon] else [])"

definition earned :: "'a accumulator_scheme \<Rightarrow> string list" where
  "earned u = hunter_part u @ slayer_part u @ points_part u @ versatility_part u @ velocity_part u"

subsection \<open>Score aggregation\<close>

text \<open>
  When the loop of \<^verbatim>\<open>updateUserScores\<close> credits a ticket to the user \<open>u\<close>: as the
  reporter of a new bug, and as the assignee of a done ticket. These are the conditions
  of the two \<^verbatim>\<open>if\<close> statements of the loop.
\<close>

definition reporter_credit :: "string \<Rightarrow> bugathon_ticket \<Rightarrow> bool" where
  "reporter_credit u t = (is_new_bug t \<and> truthy (reporter_name t) \<and> reporter_name t = u)"

definition assignee_credit :: "string \<Rightarrow> bugathon_ticket \<Rightarrow> bool" where
  "assignee_credit u t =
     (status_category t = ''done'' \<and> assignee_name t \<noteq> ''Unassigned'' \<and> assignee_name t = u)"

definition credited_users :: "bugathon_ticket list \<Rightarrow> string set" where
  "credited_users ts = {u. \<exists>t \<in> set ts. reporter_credit u t \<or> assignee_credit u t}"

text \<open>
  The user object \<open>a\<close> after the tickets \<open>ts\<close> have been credited to the user \<open>u\<close>. The
  points are added one ticket after the other, in the order of \<open>ts\<close>, each addition
  rounding: \<open>foldl (+) p [x, y, z]\<close> is \<open>((p + x) + y) + z\<close>.
\<close>

definition credited :: "accumulator \<Rightarrow> string \<Rightarrow> bugathon_ticket list \<Rightarrow> accumulator" where
  "credited a u ts =
     a\<lparr> bugs_reported := bugs_reported a + length (filter (reporter_credit u) ts),
        bugs_fixed := bugs_fixed a + length (filter (assignee_credit u) ts),
        user_reporter_points :=
          foldl (+) (user_reporter_points a) (map reporter_points (filter (reporter_credit u) ts)),
        user_assignee_points :=
          foldl (+) (user_assignee_points a) (map assignee_points (filter (assignee_credit u) ts)) \<rparr>"

text \<open>
  The object the loop starts from for the user \<open>u\<close> (the stored one, or a new one), and
  whether the map holds \<open>u\<close> after the tickets \<open>ts\<close>.
\<close>

definition start_of :: "userScoresMap \<Rightarrow> string \<Rightarrow> accumulator" where
  "start_of m u = (case map_of m u of None \<Rightarrow> newUser u | Some a \<Rightarrow> a)"

definition known :: "userScoresMap \<Rightarrow> bugathon_ticket list \<Rightarrow> string \<Rightarrow> bool" where
  "known m ts u = (map_of m u \<noteq> None \<or> u \<in> credited_users ts)"

text \<open>The row the aggregator writes for the user \<open>u\<close>.\<close>

definition score_of :: "timestamp \<Rightarrow> bugathon_ticket list \<Rightarrow> string \<Rightarrow> user_score" where
  "score_of now ts u = finalizeUser now (credited (newUser u) u ts)"

text \<open>The six fields of a row that the aggregator determines.\<close>

definition score_fields :: "user_score \<Rightarrow> nat \<times> nat \<times> number \<times> number \<times> number \<times> string list" where
  "score_fields r = (bugs_reported r, bugs_fixed r, user_reporter_points r,
     user_assignee_points r, total_points r, badges r)"

text \<open>
  The tickets the specification attributes to a user \<open>u\<close>: the new bugs whose reporter
  name is present and is \<open>u\<close>, and the done tickets whose assignee name is present, is
  not the sentinel, and is \<open>u\<close>. A name is present when it is not empty.
\<close>

definition reported_by :: "string \<Rightarrow> bugathon_ticket \<Rightarrow> bool" where
  "reported_by u t = (is_new_bug t \<and> reporter_name t \<noteq> [] \<and> reporter_name t = u)"

definition fixed_by :: "string \<Rightarrow> bugathon_ticket \<Rightarrow> bool" where
  "fixed_by u t =
     (status_category t = ''done'' \<and> assignee_name t \<noteq> [] \<and> assignee_name t \<noteq> ''Unassigned''
      \<and> assignee_name t = u)"

definition scoring_users :: "bugathon_ticket list \<Rightarrow> string set" where
  "scoring_users ts = {u. \<exists>t \<in> set ts. reported_by u t} \<union> {u. \<exists>t \<in> set ts. fixed_by u t}"

text \<open>A NormalizedTicket is a row the ticket normalizer has produced.\<close>

definition NormalizedTicket :: "bugathon_ticket \<Rightarrow> bool" where
  "NormalizedTicket t = (\<exists>now ticket. t = processTicket now ticket)"

text \<open>A done ticket whose assignee name is not the sentinel.\<close>

definition done_assigned :: "bugathon_ticket \<Rightarrow> bool" where
  "done_assigned t = (status_category t = ''done'' \<and> assignee_name t \<noteq> ''Unassigned'')"

subsection \<open>Daily statistics, achievements and the run\<close>



text \<open>The key of the collection \<^verbatim>\<open>achievements\<close>.\<close>

definition ach_key :: "achievement \<Rightarrow> string \<times> string" where
  "ach_key a = (ach_user_name a, badge_name a)"

text \<open>The requests of \<^verbatim>\<open>syncBugathonData\<close> in the order of the program text.\<close>

definition program_order :: "call list" where
  "program_order = [FetchJira, UpsertTickets, SelectTickets, UpsertScores, SelectToday,
     SelectFixed, UpsertDaily, SelectUsers, SelectAchievement, InsertAchievement]"

section \<open>Example data\<close>

text \<open>The two tickets of the end-to-end scenario.\<close>

definition alice :: JiraUser where
  "alice = \<lparr> accountId = ''u-alice'', displayName = ''alice'' \<rparr>"

definition bob :: JiraUser where
  "bob = \<lparr> accountId = ''u-bob'', displayName = ''bob'' \<rparr>"

definition ticket_A :: JiraTicket where
  "ticket_A = \<lparr> ticket_key = ''BUG-1'', fields_summary = ''[Bugathon New] crash'',
     fields_status_name = ''Open'', fields_status_statusCategory_key = ''open'',
     fields_reporter = alice, fields_assignee = None, fields_customfield_10312 = None,
     fields_customfield_10016 = Some (Num 5), fields_created = 1000, fields_resolutiondate = None,
     fields_priority_name = ''High'', fields_issuetype_name = ''Bug'' \<rparr>"

definition ticket_B :: JiraTicket where
  "ticket_B = \<lparr> ticket_key = ''BUG-2'', fields_summary = ''memory leak'',
     fields_status_name = ''Done'', fields_status_statusCategory_key = ''done'',
     fields_reporter = alice, fields_assignee = Some bob, fields_customfield_10312 = None,
     fields_customfield_10016 = Some (Num 8), fields_created = 2000, fields_resolutiondate = Some 3000,
     fields_priority_name = ''Low'', fields_issuetype_name = ''Bug'' \<rparr>"

text \<open>A done ticket without assignee, filed as a new bug by a user whose
  display name is the sentinel.\<close>

definition ticket_D :: JiraTicket where
  "ticket_D = \<lparr> ticket_key = ''BUG-4'', fields_summary = ''[BUGATHON NEW] ghost'',
     fields_status_name = ''Done'', fields_status_statusCategory_key = ''done'',
     fields_reporter = \<lparr> accountId = ''u-x'', displayName = ''Unassigned'' \<rparr>,
     fields_assignee = None, fields_customfield_10312 = None,
     fields_customfield_10016 = Some (Num 4), fields_created = 4000, fields_resolutiondate = Some 5000,
     fields_priority_name = ''Low'', fields_issuetype_name = ''Bug'' \<rparr>"


text \<open>
  Three done tickets of bob, worth 0.3, 32.3 and 17.4 points.
\<close>

definition done_by_bob :: "string \<Rightarrow> number \<Rightarrow> JiraTicket" where
  "done_by_bob k p = \<lparr> ticket_key = k, fields_summary = ''typo'',
     fields_status_name = ''Done'', fields_status_statusCategory_key = ''done'',
     fields_reporter = alice, fields_assignee = Some bob, fields_customfield_10312 = None,
     fields_customfield_10016 = Some p, fields_created = 1000, fields_resolutiondate = Some 2000,
     fields_priority_name = ''Low'', fields_issuetype_name = ''Bug'' \<rparr>"

text \<open>The row the normalizer makes of such a ticket at time 0.\<close>

definition bob_done_row :: "string \<Rightarrow> number \<Rightarrow> bugathon_ticket" where
  "bob_done_row k p = \<lparr> key = k, summary = ''typo'', is_new_bug = False, status = ''Done'',
     status_category = ''done'', reporter_id = ''u-alice'', reporter_name = ''alice'',
     assignee_id = Some ''u-bob'', assignee_name = ''bob'', sprint_points = p,
     reporter_points = 0, assignee_points = p, created_at = 1000, resolved_at = Some 2000,
     priority = ''Low'', issue_type = ''Bug'', last_updated = 0 \<rparr>"

definition ticket_F1 :: JiraTicket where
  "ticket_F1 = done_by_bob ''BUG-6'' (js (3 / 10))"

definition ticket_F2 :: JiraTicket where
  "ticket_F2 = done_by_bob ''BUG-7'' (js (323 / 10))"

definition ticket_F3 :: JiraTicket where
  "ticket_F3 = done_by_bob ''BUG-8'' (js (174 / 10))"

text \<open>
  The doubles nearest to 0.3, 32.3 and 17.4, and the double 49.99999999999999.
\<close>

definition d_0_3 :: number where
  "d_0_3 = Num (5404319552844595 / 18014398509481984)"

definition d_32_3 :: number where
  "d_32_3 = Num (2272910436938547 / 70368744177664)"

definition d_17_4 :: number where
  "d_17_4 = Num (2448832297382707 / 140737488355328)"

definition d_49_99999999999999 :: number where
  "d_49_99999999999999 = Num (7036874417766399 / 140737488355328)"



text \<open>
  Stores: the two scenario tickets with a score left by an earlier run; the same tickets
  in the other order without scores; the three tickets of bob, read in two orders; the
  two tickets with infinite points; tickets of two days with daily rows of both days;
  and a store in which alice already holds the champion achievement.
\<close>

definition carol_row :: user_score where
  "carol_row = \<lparr> user_name = ''carol'', bugs_reported = 3, bugs_fixed = 1,
     user_reporter_points = Num 6, user_assignee_points = Num 2, total_points = Num 8,
     badges = [Participant], updated_at = 1 \<rparr>"

definition store_AB :: store where
  "store_AB = \<lparr> bugathon_tickets = [processTicket 0 ticket_A, processTicket 0 ticket_B],
     user_scores = [carol_row], daily_stats = [], achievements = [], calls = [] \<rparr>"

definition store_BA :: store where
  "store_BA = \<lparr> bugathon_tickets = [processTicket 0 ticket_B, processTicket 0 ticket_A],
     user_scores = [], daily_stats = [], achievements = [], calls = [] \<rparr>"

definition store_F123 :: store where
  "store_F123 = \<lparr> bugathon_tickets =
       [processTicket 0 ticket_F1, processTicket 0 ticket_F2, processTicket 0 ticket_F3],
     user_scores = [carol_row], daily_stats = [], achievements = [], calls = [] \<rparr>"

definition store_F132 :: store where
  "store_F132 = \<lparr> bugathon_tickets =
       [processTicket 0 ticket_F1, processTicket 0 ticket_F3, processTicket 0 ticket_F2],
     user_scores = [], daily_stats = [], achievements = [], calls = [] \<rparr>"



definition store_champion :: store where
  "store_champion = \<lparr> bugathon_tickets = [], user_scores = [], daily_stats = [],
     achievements = [\<lparr> ach_user_name = ''alice'', badge_name = Current_Champion,
       badge_icon = icon_champion, description = ''Leading the bugathon!'', earned_at = 3 \<rparr>],
     calls = [] \<rparr>"

text \<open>
  Environments: every request works, at time 7 and on the second day; the fetch throws;
  and a single request to the store has the given fate while every other one works.
\<close>

definition env_ok :: env where
  "env_ok = \<lparr> jira = Inr [ticket_A, ticket_B], fate = (\<lambda>c. Works), clock = (\<lambda>st. 7) \<rparr>"



definition failing_env :: "call \<Rightarrow> fate \<Rightarrow> env" where
  "failing_env c f = \<lparr> jira = Inr [ticket_A, ticket_B],
     fate = (\<lambda>c'. if c' = c then f else Works), clock = (\<lambda>st. 7) \<rparr>"

section \<open>Properties\<close>

subsection \<open>Numbers\<close>

lemma MAX_VALUE_eq: "MAX_VALUE = 2 ^ 1024 - 2 ^ 971"
  by (simp add: MAX_VALUE_def)

lemma le_100_imp_le_50: "Num 100 \<le> t \<Longrightarrow> Num 50 \<le> t"
  by (cases t) simp_all

lemma not_le_100_iff: "Num 50 \<le> t \<Longrightarrow> (\<not> Num 100 \<le> t) = (t < Num 100)"
  by (cases t) auto


text \<open>The sums and products of the example data, each rounded as a double.\<close>

lemma half_of_5: "Num 5 * Num (1 / 2) = Num (5 / 2)"
  by code_simp

lemma half_of_4: "Num 4 * Num (1 / 2) = Num 2"
  by code_simp

lemma sum_alice: "0 + Num (5 / 2) = Num (5 / 2)" "Num (5 / 2) + 0 = Num (5 / 2)"
  by code_simp+

lemma sum_bob: "0 + Num 8 = Num 8" "Num 8 + Num 3 = Num 11" "0 + Num 3 = Num 3"
  by code_simp+

text \<open>
  The literals 0.3, 32.3 and 17.4 as doubles, and their sums in two orders:
  \<open>(0.3 + 32.3) + 17.4\<close> is 49.99999999999999, and \<open>(0.3 + 17.4) + 32.3\<close> is 50.
\<close>

lemma js_literals: "js (3 / 10) = d_0_3" "js (323 / 10) = d_32_3" "js (174 / 10) = d_17_4"
  by code_simp+

lemma sum_F123: "0 + d_0_3 = d_0_3" "(d_0_3 + d_32_3) + d_17_4 = d_49_99999999999999"
  "0 + d_49_99999999999999 = d_49_99999999999999"
  by code_simp+

lemma sum_F132: "(d_0_3 + d_17_4) + d_32_3 = Num 50" "0 + Num 50 = Num 50"
  by code_simp+

lemma below_50: "\<not> Num 50 \<le> d_49_99999999999999" "\<not> Num 100 \<le> d_49_99999999999999"
  "d_49_99999999999999 \<noteq> Num 50"
  by (simp_all add: d_49_99999999999999_def)

subsection \<open>Strings\<close>

lemma includes_iff: "includes_str s m \<longleftrightarrow> (\<exists>pre suf. s = pre @ m @ suf)"
proof (induction s)
  case Nil
  then show ?case by auto
next
  case (Cons c s)
  show ?case
  proof
    assume "includes_str (c # s) m"
    then consider "prefix m (c # s)" | "includes_str s m" by auto
    then show "\<exists>pre suf. c # s = pre @ m @ suf"
    proof cases
      case 1
      then obtain suf where "c # s = m @ suf" by (auto simp: prefix_def)
      then have "c # s = [] @ m @ suf" by simp
      then show ?thesis by blast
    next
      case 2
      with Cons.IH obtain pre suf where "s = pre @ m @ suf" by blast
      then have "c # s = (c # pre) @ m @ suf" by simp
      then show ?thesis by blast
    qed
  next
    assume "\<exists>pre suf. c # s = pre @ m @ suf"
    then obtain pre suf where eq: "c # s = pre @ m @ suf" by blast
    show "includes_str (c # s) m"
    proof (cases pre)
      case Nil
      with eq have "prefix m (c # s)" by (simp add: prefix_def)
      then show ?thesis by simp
    next
      case (Cons p pre')
      with eq have "s = pre' @ m @ suf" by simp
      with Cons.IH have "includes_str s m" by blast
      then show ?thesis by simp
    qed
  qed
qed

lemma toLowerCase_toUpperCase_char:
  "toLowerCase_char (toUpperCase_char c) = toLowerCase_char c"
proof (cases "c \<in> set lower_letters")
  case True
  then show ?thesis
    unfolding lower_letters_def
    by (auto simp: toUpperCase_char_def toLowerCase_char_def lower_letters_def
        upper_letters_def)
next
  case False
  then have "map_of (zip lower_letters upper_letters) c = None"
    by (simp add: map_of_zip_is_None lower_letters_def upper_letters_def)
  then show ?thesis by (simp add: toUpperCase_char_def)
qed

lemma toUpperCase_toLowerCase_char:
  "toUpperCase_char (toLowerCase_char c) = toUpperCase_char c"
proof (cases "c \<in> set upper_letters")
  case True
  then show ?thesis
    unfolding upper_letters_def
    by (auto simp: toUpperCase_char_def toLowerCase_char_def lower_letters_def
        upper_letters_def)
next
  case False
  then have "map_of (zip upper_letters lower_letters) c = None"
    by (simp add: map_of_zip_is_None lower_letters_def upper_letters_def)
  then show ?thesis by (simp add: toLowerCase_char_def)
qed

lemma toLowerCase_toUpperCase: "toLowerCase (toUpperCase u) = toLowerCase u"
  by (simp add: toLowerCase_def toUpperCase_def comp_def toLowerCase_toUpperCase_char)

lemma toUpperCase_toLowerCase: "toUpperCase (toLowerCase u) = toUpperCase u"
  by (simp add: toLowerCase_def toUpperCase_def comp_def toUpperCase_toLowerCase_char)

lemma fold_agree:
  "toUpperCase u = toUpperCase v \<longleftrightarrow> toLowerCase u = toLowerCase v"
proof
  assume "toUpperCase u = toUpperCase v"
  then have "toLowerCase (toUpperCase u) = toLowerCase (toUpperCase v)" by simp
  then show "toLowerCase u = toLowerCase v"
    by (simp only: toLowerCase_toUpperCase)
next
  assume "toLowerCase u = toLowerCase v"
  then have "toUpperCase (toLowerCase u) = toUpperCase (toLowerCase v)" by simp
  then show "toUpperCase u = toUpperCase v"
    by (simp only: toUpperCase_toLowerCase)
qed

lemma marker_upper: "toUpperCase ''[bugathon new]'' = ''[BUGATHON NEW]''"
  by (simp add: toUpperCase_def toUpperCase_char_def lower_letters_def upper_letters_def)

lemma map_split:
  "map f s = a @ b \<Longrightarrow> \<exists>us vs. s = us @ vs \<and> map f us = a \<and> map f vs = b"
  by (auto simp: map_eq_append_conv)

lemma includes_upper_iff:
  "includes_str (toUpperCase s) (toUpperCase m) \<longleftrightarrow> contains_ci s m"
proof
  assume "includes_str (toUpperCase s) (toUpperCase m)"
  then obtain pre suf where "map toUpperCase_char s = pre @ (toUpperCase m @ suf)"
    by (auto simp: includes_iff toUpperCase_def)
  then obtain p r where s1: "s = p @ r" and "map toUpperCase_char r = toUpperCase m @ suf"
    using map_split [of toUpperCase_char s pre "toUpperCase m @ suf"] by blast
  then obtain u q where s2: "r = u @ q" and "map toUpperCase_char u = toUpperCase m"
    using map_split [of toUpperCase_char r "toUpperCase m" suf] by blast
  with s1 have "s = p @ u @ q" and "map toUpperCase_char u = toUpperCase m"
    by simp_all
  then have "s = p @ u @ q \<and> toLowerCase u = toLowerCase m"
    using fold_agree [of u m] by (simp add: toUpperCase_def)
  then show "contains_ci s m" unfolding contains_ci_def by blast
next
  assume "contains_ci s m"
  then obtain p u q where s: "s = p @ u @ q" and "toLowerCase u = toLowerCase m"
    unfolding contains_ci_def by blast
  then have "toUpperCase u = toUpperCase m" by (simp add: fold_agree)
  with s have "toUpperCase s = toUpperCase p @ toUpperCase m @ toUpperCase q"
    by (simp add: toUpperCase_def)
  then show "includes_str (toUpperCase s) (toUpperCase m)"
    unfolding includes_iff by blast
qed

subsection \<open>The ticket normalizer\<close>

lemma is_new_bug_iff:
  "is_new_bug (processTicket now ticket) \<longleftrightarrow> contains_ci (fields_summary ticket) ''[bugathon new]''"
  using includes_upper_iff [of "fields_summary ticket" "''[bugathon new]''"]
  by (simp add: processTicket_def Let_def marker_upper)

lemmas case_defs = toUpperCase_def toUpperCase_char_def lower_letters_def upper_letters_def

text \<open>
  Claim C1. For every raw ticket the normalizer yields a row (the function is total and
  reads nothing but its arguments) in which: \<open>is_new_bug\<close> holds exactly when the summary
  contains the marker \<open>[bugathon new]\<close> up to case; missing points give sprint points 0
  (and so does NaN, every other number is kept),
  a missing assignee gives the name \<open>Unassigned\<close> and no assignee id, a missing resolution
  date stays absent; \<open>reporter_points\<close> is half the sprint points for a new bug and 0
  otherwise; \<open>assignee_points\<close> is the sprint points for status category \<open>done\<close> and 0
  otherwise. The clock only decides \<open>last_updated\<close>.
\<close>

theorem processTicket_rules:
  "(is_new_bug (processTicket now ticket) \<longleftrightarrow>
      contains_ci (fields_summary ticket) ''[bugathon new]'')
   \<and> sprint_points (processTicket now ticket) =
       (case fields_customfield_10016 ticket of None \<Rightarrow> 0
        | Some p \<Rightarrow> if p = NaN then 0 else p)
   \<and> (fields_assignee ticket = None \<longrightarrow>
        assignee_name (processTicket now ticket) = ''Unassigned''
        \<and> assignee_id (processTicket now ticket) = None)
   \<and> (fields_resolutiondate ticket = None \<longrightarrow> resolved_at (processTicket now ticket) = None)
   \<and> reporter_points (processTicket now ticket) =
       (if is_new_bug (processTicket now ticket)
        then sprint_points (processTicket now ticket) * Num (1 / 2) else 0)
   \<and> assignee_points (processTicket now ticket) =
       (if status_category (processTicket now ticket) = ''done''
        then sprint_points (processTicket now ticket) else 0)
   \<and> (\<not> is_new_bug (processTicket now ticket) \<longrightarrow> reporter_points (processTicket now ticket) = 0)
   \<and> (status_category (processTicket now ticket) \<noteq> ''done'' \<longrightarrow>
        assignee_points (processTicket now ticket) = 0)
   \<and> processTicket now' ticket = (processTicket now ticket)\<lparr> last_updated := now' \<rparr>"
proof -
  have "is_new_bug (processTicket now ticket) \<longleftrightarrow>
      contains_ci (fields_summary ticket) ''[bugathon new]''"
    by (rule is_new_bug_iff)
  moreover have "sprint_points (processTicket now ticket) =
       (case fields_customfield_10016 ticket of None \<Rightarrow> 0
        | Some p \<Rightarrow> if p = NaN then 0 else p)"
    by (simp add: processTicket_def Let_def num_or_def falsy_def zero_number_def
        split: option.splits)
  moreover have "fields_assignee ticket = None \<longrightarrow>
        assignee_name (processTicket now ticket) = ''Unassigned''
        \<and> assignee_id (processTicket now ticket) = None"
    by (simp add: processTicket_def Let_def str_or_def str_or_null_def)
  moreover have "fields_resolutiondate ticket = None \<longrightarrow> resolved_at (processTicket now ticket) = None"
    by (simp add: processTicket_def Let_def)
  moreover have "reporter_points (processTicket now ticket) =
       (if is_new_bug (processTicket now ticket)
        then sprint_points (processTicket now ticket) * Num (1 / 2) else 0)"
    by (simp add: processTicket_def Let_def)
  moreover have "assignee_points (processTicket now ticket) =
       (if status_category (processTicket now ticket) = ''done''
        then sprint_points (processTicket now ticket) else 0)"
    by (simp add: processTicket_def Let_def)
  moreover have "processTicket now' ticket = (processTicket now ticket)\<lparr> last_updated := now' \<rparr>"
    by (simp add: processTicket_def Let_def)
  ultimately show ?thesis by simp
qed

text \<open>
  Witness for C1: the two tickets of the end-to-end scenario. Ticket A is a new bug,
  open, without assignee or resolution date; ticket B is neither new nor unassigned, and
  done.
\<close>

theorem processTicket_rules_witness:
  "contains_ci ''[Bugathon New] crash'' ''[bugathon new]''
   \<and> fields_assignee ticket_A = None \<and> fields_resolutiondate ticket_A = None
   \<and> assignee_name (processTicket 0 ticket_A) = ''Unassigned''
   \<and> resolved_at (processTicket 0 ticket_A) = None
   \<and> reporter_points (processTicket 0 ticket_A) = Num (5 / 2)
   \<and> status_category (processTicket 0 ticket_A) \<noteq> ''done''
   \<and> assignee_points (processTicket 0 ticket_A) = 0
   \<and> \<not> is_new_bug (processTicket 0 ticket_B)
   \<and> reporter_points (processTicket 0 ticket_B) = 0
   \<and> assignee_points (processTicket 0 ticket_B) = Num 8"
proof -
  have a: "is_new_bug (processTicket 0 ticket_A)"
    by (simp add: processTicket_def Let_def ticket_A_def case_defs)
  have b: "\<not> is_new_bug (processTicket 0 ticket_B)"
    by (simp add: processTicket_def Let_def ticket_B_def case_defs)
  have sa: "fields_summary ticket_A = ''[Bugathon New] crash''"
    and na: "fields_assignee ticket_A = None" and ra: "fields_resolutiondate ticket_A = None"
    and pa: "fields_customfield_10016 ticket_A = Some (Num 5)"
    and ca: "status_category (processTicket 0 ticket_A) = ''open''"
    by (simp_all add: ticket_A_def processTicket_def Let_def)
  have pb: "fields_customfield_10016 ticket_B = Some (Num 8)"
    and cb: "status_category (processTicket 0 ticket_B) = ''done''"
    by (simp_all add: ticket_B_def processTicket_def Let_def)
  show ?thesis
    using processTicket_rules [of 0 ticket_A 0] processTicket_rules [of 0 ticket_B 0]
      a b sa na ra pa ca pb cb
    by (simp add: half_of_5)
qed

subsection \<open>The badge evaluator\<close>

lemmas label_defs = Bug_Hunter_Elite_def Bug_Hunter_def Bug_Slayer_Supreme_def Bug_Slayer_def
  Point_Master_def Rising_Star_def All_Rounder_def Speed_Demon_def Participant_def
  icon_hunter_elite_def icon_hunter_def icon_slayer_supreme_def icon_slayer_def
  icon_point_master_def icon_rising_star_def icon_all_rounder_def icon_speed_demon_def
  icon_participant_def

lemma distinct_badge_order: "distinct badge_order"
  unfolding badge_order_def by (simp add: label_defs)

lemma labels_neq:
  "Bug_Hunter_Elite \<noteq> Bug_Hunter" "Bug_Hunter_Elite \<noteq> Bug_Slayer_Supreme"
  "Bug_Hunter_Elite \<noteq> Bug_Slayer" "Bug_Hunter_Elite \<noteq> Point_Master"
  "Bug_Hunter_Elite \<noteq> Rising_Star" "Bug_Hunter_Elite \<noteq> All_Rounder"
  "Bug_Hunter_Elite \<noteq> Speed_Demon" "Bug_Hunter_Elite \<noteq> Participant"
  "Bug_Hunter \<noteq> Bug_Slayer_Supreme" "Bug_Hunter \<noteq> Bug_Slayer" "Bug_Hunter \<noteq> Point_Master"
  "Bug_Hunter \<noteq> Rising_Star" "Bug_Hunter \<noteq> All_Rounder" "Bug_Hunter \<noteq> Speed_Demon"
  "Bug_Hunter \<noteq> Participant"
  "Bug_Slayer_Supreme \<noteq> Bug_Slayer" "Bug_Slayer_Supreme \<noteq> Point_Master"
  "Bug_Slayer_Supreme \<noteq> Rising_Star" "Bug_Slayer_Supreme \<noteq> All_Rounder"
  "Bug_Slayer_Supreme \<noteq> Speed_Demon" "Bug_Slayer_Supreme \<noteq> Participant"
  "Bug_Slayer \<noteq> Point_Master" "Bug_Slayer \<noteq> Rising_Star" "Bug_Slayer \<noteq> All_Rounder"
  "Bug_Slayer \<noteq> Speed_Demon" "Bug_Slayer \<noteq> Participant"
  "Point_Master \<noteq> Rising_Star" "Point_Master \<noteq> All_Rounder" "Point_Master \<noteq> Speed_Demon"
  "Point_Master \<noteq> Participant"
  "Rising_Star \<noteq> All_Rounder" "Rising_Star \<noteq> Speed_Demon" "Rising_Star \<noteq> Participant"
  "All_Rounder \<noteq> Speed_Demon" "All_Rounder \<noteq> Participant"
  "Speed_Demon \<noteq> Participant"
  using distinct_badge_order unfolding badge_order_def by simp_all

lemmas part_defs = hunter_part_def slayer_part_def points_part_def versatility_part_def
  velocity_part_def

lemma calculateBadges_earned:
  "calculateBadges u = (if earned u = [] then [Participant] else earned u)"
  by (simp add: calculateBadges_def earned_def part_defs Let_def)

lemma set_earned:
  "set (earned u) = set (hunter_part u) \<union> set (slayer_part u) \<union> set (points_part u)
     \<union> set (versatility_part u) \<union> set (velocity_part u)"
  by (auto simp: earned_def)

lemma Participant_notin_earned: "Participant \<notin> set (earned u)"
  by (simp add: set_earned part_defs labels_neq labels_neq [symmetric])

lemma set_calculateBadges:
  "set (calculateBadges u) = (if earned u = [] then {Participant} else set (earned u))"
  by (simp add: calculateBadges_earned)

lemma earned_Nil_iff:
  "earned u = [] \<longleftrightarrow> bugs_reported u < 5 \<and> bugs_fixed u < 3 \<and> \<not> Num 50 \<le> total_points u
      \<and> (bugs_reported u = 0 \<or> bugs_fixed u = 0)"
  using le_100_imp_le_50 [of "total_points u"] by (auto simp: earned_def part_defs)


lemma subseq_earned: "subseq (earned u) [Bug_Hunter_Elite, Bug_Hunter, Bug_Slayer_Supreme,
    Bug_Slayer, Point_Master, Rising_Star, All_Rounder, Speed_Demon]"
  by (simp add: earned_def part_defs labels_neq labels_neq [symmetric])

lemma subseq_calculateBadges: "subseq (calculateBadges u) badge_order"
proof (cases "earned u = []")
  case True
  then have "calculateBadges u = [Participant]" by (simp add: calculateBadges_earned)
  moreover have "Participant \<in> set badge_order" by (simp add: badge_order_def)
  ultimately show ?thesis by (simp add: subseq_singleton_left)
next
  case False
  then have "calculateBadges u = earned u" by (simp add: calculateBadges_earned)
  moreover have "subseq (earned u) badge_order"
    by (simp add: earned_def part_defs badge_order_def labels_neq labels_neq [symmetric])
  ultimately show ?thesis by simp
qed

lemma mem_hunter_elite: "Bug_Hunter_Elite \<in> set (calculateBadges u) \<longleftrightarrow> bugs_reported u \<ge> 10"
  by (auto simp: set_calculateBadges set_earned earned_Nil_iff part_defs labels_neq labels_neq [symmetric])

lemma mem_hunter: "Bug_Hunter \<in> set (calculateBadges u) \<longleftrightarrow> 5 \<le> bugs_reported u \<and> bugs_reported u < 10"
  by (auto simp: set_calculateBadges set_earned earned_Nil_iff part_defs labels_neq labels_neq [symmetric])

lemma mem_slayer_supreme: "Bug_Slayer_Supreme \<in> set (calculateBadges u) \<longleftrightarrow> bugs_fixed u \<ge> 10"
  by (auto simp: set_calculateBadges set_earned earned_Nil_iff part_defs labels_neq labels_neq [symmetric])

lemma mem_slayer: "Bug_Slayer \<in> set (calculateBadges u) \<longleftrightarrow> 5 \<le> bugs_fixed u \<and> bugs_fixed u < 10"
  by (auto simp: set_calculateBadges set_earned earned_Nil_iff part_defs labels_neq labels_neq [symmetric])

lemma mem_point_master: "Point_Master \<in> set (calculateBadges u) \<longleftrightarrow> total_points u \<ge> Num 100"
  using le_100_imp_le_50 [of "total_points u"]
  by (auto simp: set_calculateBadges set_earned earned_Nil_iff part_defs labels_neq labels_neq [symmetric])

lemma mem_rising_star:
  "Rising_Star \<in> set (calculateBadges u) \<longleftrightarrow> Num 50 \<le> total_points u \<and> total_points u < Num 100"
proof -
  have "Rising_Star \<in> set (calculateBadges u) \<longleftrightarrow> Num 50 \<le> total_points u \<and> \<not> Num 100 \<le> total_points u"
    by (auto simp: set_calculateBadges set_earned earned_Nil_iff part_defs labels_neq labels_neq [symmetric])
  then show ?thesis using not_le_100_iff [of "total_points u"] by blast
qed

lemma mem_all_rounder: "All_Rounder \<in> set (calculateBadges u) \<longleftrightarrow> bugs_reported u > 0 \<and> bugs_fixed u > 0"
  by (auto simp: set_calculateBadges set_earned earned_Nil_iff part_defs labels_neq labels_neq [symmetric])

lemma mem_speed_demon: "Speed_Demon \<in> set (calculateBadges u) \<longleftrightarrow> bugs_fixed u \<ge> 3"
  by (auto simp: set_calculateBadges set_earned earned_Nil_iff part_defs labels_neq labels_neq [symmetric])

lemma mem_participant:
  "Participant \<in> set (calculateBadges u) \<longleftrightarrow> calculateBadges u = [Participant]"
  using Participant_notin_earned [of u] by (auto simp: calculateBadges_earned)

lemma participant_iff:
  "calculateBadges u = [Participant] \<longleftrightarrow>
     bugs_reported u < 5 \<and> bugs_fixed u < 3 \<and> \<not> Num 50 \<le> total_points u
     \<and> (bugs_reported u = 0 \<or> bugs_fixed u = 0)"
proof -
  have "calculateBadges u = [Participant] \<longleftrightarrow> earned u = []"
  proof
    assume eq: "calculateBadges u = [Participant]"
    show "earned u = []"
    proof (rule ccontr)
      assume "earned u \<noteq> []"
      with eq have "earned u = [Participant]" by (simp add: calculateBadges_earned)
      then have "Participant \<in> set (earned u)" by simp
      with Participant_notin_earned [of u] show False by simp
    qed
  next
    assume "earned u = []"
    then show "calculateBadges u = [Participant]" by (simp add: calculateBadges_earned)
  qed
  then show ?thesis by (simp only: earned_Nil_iff)
qed

lemma calculateBadges_cong:
  "bugs_reported u = bugs_reported v \<Longrightarrow> bugs_fixed u = bugs_fixed v \<Longrightarrow>
   total_points u = total_points v \<Longrightarrow> calculateBadges u = calculateBadges v"
  by (simp add: calculateBadges_def)

lemma badges_example_1: "calculateBadges (u\<lparr> bugs_reported := 12, bugs_fixed := 0, total_points := 0 \<rparr>)
       = [Bug_Hunter_Elite]"
  by (simp add: calculateBadges_def zero_number_def)

lemma badges_example_2: "calculateBadges (u\<lparr> bugs_reported := 6, bugs_fixed := 6, total_points := Num 60 \<rparr>)
       = [Bug_Hunter, Bug_Slayer, Rising_Star, All_Rounder, Speed_Demon]"
  by (simp add: calculateBadges_def)

lemma badges_example_3: "calculateBadges (u\<lparr> bugs_reported := 0, bugs_fixed := 0, total_points := 0 \<rparr>)
       = [Participant]"
  by (simp add: calculateBadges_def zero_number_def)

text \<open>
  Claim C3, as the code has it. The evaluator depends on nothing but \<open>bugs_reported\<close>,
  \<open>bugs_fixed\<close> and \<open>total_points\<close>; its result lists labels in the fixed category
  order (Hunter, Slayer, Points, Versatility, Velocity), the highest tier of each
  category only, under the thresholds below; the single default label stands alone when
  no category matches (for the points: when \<open>total_points >= 50\<close> is false, as it is
  below 50 and for NaN). The labels are the source's strings, an icon followed by
  \<open>Bug Hunter Elite\<close>, \<open>Bug Hunter\<close>, \<open>Bug Slayer Supreme\<close>, \<open>Bug Slayer\<close>, \<open>Point Master\<close>,
  \<open>Rising Star\<close>, \<open>All-Rounder\<close>, \<open>Speed Demon\<close> and \<open>Participant\<close>.
\<close>

theorem calculateBadges_rules:
  "(Bug_Hunter_Elite \<in> set (calculateBadges u) \<longleftrightarrow> bugs_reported u \<ge> 10)
   \<and> (Bug_Hunter \<in> set (calculateBadges u) \<longleftrightarrow> 5 \<le> bugs_reported u \<and> bugs_reported u < 10)
   \<and> (Bug_Slayer_Supreme \<in> set (calculateBadges u) \<longleftrightarrow> bugs_fixed u \<ge> 10)
   \<and> (Bug_Slayer \<in> set (calculateBadges u) \<longleftrightarrow> 5 \<le> bugs_fixed u \<and> bugs_fixed u < 10)
   \<and> (Point_Master \<in> set (calculateBadges u) \<longleftrightarrow> total_points u \<ge> Num 100)
   \<and> (Rising_Star \<in> set (calculateBadges u) \<longleftrightarrow>
        Num 50 \<le> total_points u \<and> total_points u < Num 100)
   \<and> (All_Rounder \<in> set (calculateBadges u) \<longleftrightarrow> bugs_reported u > 0 \<and> bugs_fixed u > 0)
   \<and> (Speed_Demon \<in> set (calculateBadges u) \<longleftrightarrow> bugs_fixed u \<ge> 3)
   \<and> (Participant \<in> set (calculateBadges u) \<longleftrightarrow> calculateBadges u = [Participant])
   \<and> (calculateBadges u = [Participant] \<longleftrightarrow>
        bugs_reported u < 5 \<and> bugs_fixed u < 3 \<and> \<not> Num 50 \<le> total_points u
        \<and> (bugs_reported u = 0 \<or> bugs_fixed u = 0))
   \<and> subseq (calculateBadges u) badge_order \<and> distinct badge_order
   \<and> (bugs_reported u = bugs_reported v \<and> bugs_fixed u = bugs_fixed v
        \<and> total_points u = total_points v \<longrightarrow> calculateBadges u = calculateBadges v)
   \<and> calculateBadges (u\<lparr> bugs_reported := 12, bugs_fixed := 0, total_points := 0 \<rparr>)
       = [Bug_Hunter_Elite]
   \<and> calculateBadges (u\<lparr> bugs_reported := 6, bugs_fixed := 6, total_points := Num 60 \<rparr>)
       = [Bug_Hunter, Bug_Slayer, Rising_Star, All_Rounder, Speed_Demon]
   \<and> calculateBadges (u\<lparr> bugs_reported := 0, bugs_fixed := 0, total_points := 0 \<rparr>)
       = [Participant]"
proof -
  have same_counters: "bugs_reported u = bugs_reported v \<and> bugs_fixed u = bugs_fixed v
        \<and> total_points u = total_points v \<longrightarrow> calculateBadges u = calculateBadges v"
    using calculateBadges_cong [of u v] by blast
  show ?thesis
    apply (rule conjI, rule mem_hunter_elite)
    apply (rule conjI, rule mem_hunter)
    apply (rule conjI, rule mem_slayer_supreme)
    apply (rule conjI, rule mem_slayer)
    apply (rule conjI, rule mem_point_master)
    apply (rule conjI, rule mem_rising_star)
    apply (rule conjI, rule mem_all_rounder)
    apply (rule conjI, rule mem_speed_demon)
    apply (rule conjI, rule mem_participant)
    apply (rule conjI, rule participant_iff)
    apply (rule conjI, rule subseq_calculateBadges)
    apply (rule conjI, rule distinct_badge_order)
    apply (rule conjI, rule same_counters)
    apply (rule conjI, rule badges_example_1)
    apply (rule conjI, rule badges_example_2)
    apply (rule badges_example_3)
    done
qed

text \<open>
  Witness for C3 as amended: two users with different names and the counters (6, 6, 60)
  get the same badges, among them the lower Hunter tier.
\<close>

theorem calculateBadges_rules_witness:
  "calculateBadges ((newUser ''alice'')\<lparr> bugs_reported := 6, bugs_fixed := 6, total_points := Num 60 \<rparr>)
     = calculateBadges ((newUser ''bob'')\<lparr> bugs_reported := 6, bugs_fixed := 6, total_points := Num 60 \<rparr>)
   \<and> Bug_Hunter \<in> set (calculateBadges
         ((newUser ''alice'')\<lparr> bugs_reported := 6, bugs_fixed := 6, total_points := Num 60 \<rparr>))"
proof -
  let ?a = "(newUser ''alice'')\<lparr> bugs_reported := 6, bugs_fixed := 6, total_points := Num 60 \<rparr>"
  let ?b = "(newUser ''bob'')\<lparr> bugs_reported := 6, bugs_fixed := 6, total_points := Num 60 \<rparr>"
  note r = calculateBadges_rules [of ?a ?b]
  have same: "bugs_reported ?a = bugs_reported ?b \<and> bugs_fixed ?a = bugs_fixed ?b
      \<and> total_points ?a = total_points ?b"
    by simp
  have six: "5 \<le> bugs_reported ?a \<and> bugs_reported ?a < 10" by simp
  note c2 = conjunct2
  from r [THEN c2, THEN c2, THEN c2, THEN c2, THEN c2, THEN c2, THEN c2, THEN c2, THEN c2,
      THEN c2, THEN c2, THEN c2, THEN conjunct1]
  have "bugs_reported ?a = bugs_reported ?b \<and> bugs_fixed ?a = bugs_fixed ?b
        \<and> total_points ?a = total_points ?b \<longrightarrow> calculateBadges ?a = calculateBadges ?b" .
  with same have 1: "calculateBadges ?a = calculateBadges ?b" by (rule rev_mp)
  from r [THEN c2, THEN conjunct1]
  have "Bug_Hunter \<in> set (calculateBadges ?a) \<longleftrightarrow>
      5 \<le> bugs_reported ?a \<and> bugs_reported ?a < 10" .
  with six have 2: "Bug_Hunter \<in> set (calculateBadges ?a)" by (rule rev_iffD2)
  from 1 2 show ?thesis by (rule conjI)
qed

text \<open>
  Counterexample to C3 as stated: for the counters (12, 0, 0) the evaluator does not
  return the list holding the string \<open>Elite Hunter\<close>; its label is an icon followed by
  \<open>Bug Hunter Elite\<close>.
\<close>

theorem calculateBadges_label_counterexample:
  "calculateBadges ((newUser ''alice'')\<lparr> bugs_reported := 12, bugs_fixed := 0, total_points := 0 \<rparr>)
   \<noteq> [''Elite Hunter'']"
  by (simp add: calculateBadges_def Bug_Hunter_Elite_def icon_hunter_elite_def zero_number_def)

subsection \<open>The score aggregator\<close>

lemma credited_Nil [simp]: "credited a u [] = a"
  by (simp add: credited_def)

lemma credited_append: "credited (credited a u xs) u ys = credited a u (xs @ ys)"
  by (simp add: credited_def)

lemma map_of_creditReporter:
  "map_of (creditReporter m t) u =
     (if reporter_credit u t
      then Some ((start_of m u)\<lparr> bugs_reported := bugs_reported (start_of m u) + 1,
              user_reporter_points := user_reporter_points (start_of m u) + reporter_points t \<rparr>)
      else map_of m u)"
  by (auto simp: creditReporter_def reporter_credit_def start_of_def Let_def update_conv')

lemma map_of_creditAssignee:
  "map_of (creditAssignee m t) u =
     (if assignee_credit u t
      then Some ((start_of m u)\<lparr> bugs_fixed := bugs_fixed (start_of m u) + 1,
              user_assignee_points := user_assignee_points (start_of m u) + assignee_points t \<rparr>)
      else map_of m u)"
  by (auto simp: creditAssignee_def assignee_credit_def start_of_def Let_def update_conv')

lemma map_of_forEach_body:
  "map_of (forEach_body m t) u =
     (if known m [t] u then Some (credited (start_of m u) u [t]) else None)"
  by (auto simp: forEach_body_def map_of_creditAssignee map_of_creditReporter known_def
      credited_users_def credited_def start_of_def newUser_def split: option.splits)

lemma known_Cons: "known (forEach_body m t) ts u \<longleftrightarrow> known m (t # ts) u"
  by (auto simp: known_def map_of_forEach_body credited_users_def)

lemma credited_newUser_idle:
  "\<not> reporter_credit u t \<Longrightarrow> \<not> assignee_credit u t \<Longrightarrow> credited a u [t] = a"
  by (simp add: credited_def)

lemma start_of_forEach_body:
  "known m (t # ts) u \<Longrightarrow> start_of (forEach_body m t) u = credited (start_of m u) u [t]"
proof (cases "known m [t] u")
  case True
  then show ?thesis by (simp add: start_of_def [of "forEach_body m t"] map_of_forEach_body)
next
  case False
  then have none: "map_of m u = None" and idle: "\<not> reporter_credit u t" "\<not> assignee_credit u t"
    by (auto simp: known_def credited_users_def)
  from False have "start_of (forEach_body m t) u = newUser u"
    by (simp add: start_of_def [of "forEach_body m t"] map_of_forEach_body)
  moreover from none have "start_of m u = newUser u" by (simp add: start_of_def)
  ultimately show ?thesis using idle by (simp add: credited_newUser_idle)
qed

lemma map_of_foldl_forEach_body:
  "map_of (foldl forEach_body m ts) u =
     (if known m ts u then Some (credited (start_of m u) u ts) else None)"
proof (induction ts arbitrary: m)
  case Nil
  then show ?case by (auto simp: known_def credited_users_def start_of_def)
next
  case (Cons t ts)
  have "map_of (foldl forEach_body m (t # ts)) u = map_of (foldl forEach_body (forEach_body m t) ts) u"
    by simp
  also have "\<dots> = (if known (forEach_body m t) ts u
                    then Some (credited (start_of (forEach_body m t) u) u ts) else None)"
    by (rule Cons.IH)
  also have "\<dots> = (if known m (t # ts) u then Some (credited (start_of m u) u (t # ts)) else None)"
  proof (cases "known m (t # ts) u")
    case True
    then have "credited (start_of (forEach_body m t) u) u ts = credited (start_of m u) u ([t] @ ts)"
      by (simp only: start_of_forEach_body credited_append)
    with True show ?thesis by (simp add: known_Cons)
  next
    case False
    then show ?thesis by (simp add: known_Cons)
  qed
  finally show ?case .
qed

lemma map_of_accumulateScores:
  "map_of (accumulateScores ts) u =
     (if u \<in> credited_users ts then Some (credited (newUser u) u ts) else None)"
  by (simp add: accumulateScores_def map_of_foldl_forEach_body known_def start_of_def)

lemma distinct_creditReporter:
  "distinct (map fst m) \<Longrightarrow> distinct (map fst (creditReporter m t))"
  by (simp add: creditReporter_def Let_def distinct_update)

lemma distinct_creditAssignee:
  "distinct (map fst m) \<Longrightarrow> distinct (map fst (creditAssignee m t))"
  by (simp add: creditAssignee_def Let_def distinct_update)

lemma distinct_foldl_forEach_body:
  "distinct (map fst m) \<Longrightarrow> distinct (map fst (foldl forEach_body m ts))"
  by (induction ts arbitrary: m)
    (simp_all add: forEach_body_def distinct_creditReporter distinct_creditAssignee)

lemma distinct_accumulateScores: "distinct (map fst (accumulateScores ts))"
  by (simp add: accumulateScores_def distinct_foldl_forEach_body)

lemma accumulateScores_entry:
  "(u, a) \<in> set (accumulateScores ts) \<longleftrightarrow> u \<in> credited_users ts \<and> a = credited (newUser u) u ts"
proof -
  have "(u, a) \<in> set (accumulateScores ts) \<longleftrightarrow> map_of (accumulateScores ts) u = Some a"
    using distinct_accumulateScores [of ts] by simp
  then show ?thesis by (auto simp: map_of_accumulateScores)
qed

lemma user_name_credited [simp]: "user_name (credited a u ts) = user_name a"
  by (simp add: credited_def)

lemma user_name_score_of [simp]: "user_name (score_of now ts u) = u"
  by (simp add: score_of_def finalizeUser_def newUser_def)

lemma accumulateScores_eq:
  "accumulateScores ts = map (\<lambda>u. (u, credited (newUser u) u ts)) (map fst (accumulateScores ts))"
proof -
  have "\<forall>p \<in> set (accumulateScores ts). p = (fst p, credited (newUser (fst p)) (fst p) ts)"
  proof
    fix p assume "p \<in> set (accumulateScores ts)"
    then have "(fst p, snd p) \<in> set (accumulateScores ts)" by simp
    then have "snd p = credited (newUser (fst p)) (fst p) ts"
      by (simp only: accumulateScores_entry)
    then show "p = (fst p, credited (newUser (fst p)) (fst p) ts)" by (cases p) simp
  qed
  then have "map (\<lambda>p. (fst p, credited (newUser (fst p)) (fst p) ts)) (accumulateScores ts)
      = accumulateScores ts"
    by (simp add: map_idI)
  then show ?thesis by (simp add: comp_def)
qed

lemma scoresArray_eq:
  "scoresArray now ts = map (score_of now ts) (map fst (accumulateScores ts))"
proof -
  have "scoresArray now ts = map (finalizeUser now) (map snd
      (map (\<lambda>u. (u, credited (newUser u) u ts)) (map fst (accumulateScores ts))))"
    using accumulateScores_eq [of ts] by (simp add: scoresArray_def)
  then show ?thesis by (simp add: comp_def score_of_def)
qed

lemma set_fst_accumulateScores: "set (map fst (accumulateScores ts)) = credited_users ts"
proof -
  have "\<And>u. u \<in> fst ` set (accumulateScores ts) \<longleftrightarrow> u \<in> credited_users ts"
  proof -
    fix u
    have "u \<in> fst ` set (accumulateScores ts) \<longleftrightarrow> (\<exists>a. (u, a) \<in> set (accumulateScores ts))"
      by force
    then show "u \<in> fst ` set (accumulateScores ts) \<longleftrightarrow> u \<in> credited_users ts"
      by (simp add: accumulateScores_entry)
  qed
  then show ?thesis by auto
qed

lemma user_names_scoresArray:
  "map user_name (scoresArray now ts) = map fst (accumulateScores ts)"
  by (simp add: scoresArray_eq comp_def)

lemma distinct_scoresArray: "distinct (map user_name (scoresArray now ts))"
  by (simp only: user_names_scoresArray distinct_accumulateScores)

lemma set_user_names_scoresArray:
  "set (map user_name (scoresArray now ts)) = credited_users ts"
  by (simp only: user_names_scoresArray set_fst_accumulateScores)

lemma scoresArray_row:
  "r \<in> set (scoresArray now ts) \<longleftrightarrow> user_name r \<in> credited_users ts \<and> r = score_of now ts (user_name r)"
proof
  assume "r \<in> set (scoresArray now ts)"
  then obtain u where "u \<in> set (map fst (accumulateScores ts))" and "r = score_of now ts u"
    by (auto simp: scoresArray_eq)
  then show "user_name r \<in> credited_users ts \<and> r = score_of now ts (user_name r)"
    by (simp add: set_fst_accumulateScores [symmetric])
next
  assume a: "user_name r \<in> credited_users ts \<and> r = score_of now ts (user_name r)"
  then have "user_name r \<in> set (map fst (accumulateScores ts))"
    by (simp only: set_fst_accumulateScores)
  then have "score_of now ts (user_name r) \<in> set (scoresArray now ts)"
    by (force simp: scoresArray_eq)
  with a show "r \<in> set (scoresArray now ts)" by simp
qed

lemma score_of_fields:
  "bugs_reported (score_of now ts u) = length (filter (reporter_credit u) ts)"
  "bugs_fixed (score_of now ts u) = length (filter (assignee_credit u) ts)"
  "user_reporter_points (score_of now ts u) = foldl (+) 0 (map reporter_points (filter (reporter_credit u) ts))"
  "user_assignee_points (score_of now ts u) = foldl (+) 0 (map assignee_points (filter (assignee_credit u) ts))"
  "total_points (score_of now ts u) =
     user_reporter_points (score_of now ts u) + user_assignee_points (score_of now ts u)"
  "updated_at (score_of now ts u) = now"
  by (simp_all add: score_of_def finalizeUser_def Let_def credited_def newUser_def)

lemma badges_finalizeUser: "badges (finalizeUser now a) = calculateBadges (finalizeUser now a)"
proof -
  have "badges (finalizeUser now a)
      = calculateBadges (a\<lparr> total_points := user_reporter_points a + user_assignee_points a \<rparr>)"
    by (simp add: finalizeUser_def Let_def)
  also have "\<dots> = calculateBadges (finalizeUser now a)"
    by (rule calculateBadges_cong) (simp_all add: finalizeUser_def Let_def)
  finally show ?thesis .
qed

lemma badges_score_of: "badges (score_of now ts u) = calculateBadges (score_of now ts u)"
  by (simp only: score_of_def badges_finalizeUser)

lemma processTicket_assignee_name: "assignee_name (processTicket now ticket) \<noteq> []"
  by (simp add: processTicket_def Let_def str_or_def truthy_def split: option.splits)

lemma NormalizedTicket_assignee_name: "NormalizedTicket t \<Longrightarrow> assignee_name t \<noteq> []"
  unfolding NormalizedTicket_def using processTicket_assignee_name by blast

lemma reporter_credit_eq: "reporter_credit u t = reported_by u t"
  by (simp add: reporter_credit_def reported_by_def truthy_def)

lemma assignee_credit_eq:
  "NormalizedTicket t \<Longrightarrow> assignee_credit u t = fixed_by u t"
  using NormalizedTicket_assignee_name [of t]
  by (simp add: assignee_credit_def fixed_by_def)

lemma filter_reporter_credit: "filter (reporter_credit u) ts = filter (reported_by u) ts"
  by (rule filter_cong) (simp_all add: reporter_credit_eq)

lemma filter_assignee_credit:
  assumes "\<forall>t \<in> set ts. NormalizedTicket t"
  shows "filter (assignee_credit u) ts = filter (fixed_by u) ts"
proof (rule filter_cong)
  show "ts = ts" by (rule refl)
next
  fix t assume "t \<in> set ts"
  with assms have "NormalizedTicket t" by blast
  then show "assignee_credit u t = fixed_by u t" by (rule assignee_credit_eq)
qed

lemma credited_users_normalized:
  assumes "\<forall>t \<in> set ts. NormalizedTicket t"
  shows "credited_users ts = scoring_users ts"
proof -
  have "\<And>u. u \<in> credited_users ts \<longleftrightarrow> u \<in> scoring_users ts"
  proof -
    fix u
    have "(\<exists>t \<in> set ts. reporter_credit u t \<or> assignee_credit u t)
        \<longleftrightarrow> (\<exists>t \<in> set ts. reported_by u t \<or> fixed_by u t)"
    proof (rule bex_cong)
      show "set ts = set ts" by (rule refl)
    next
      fix t assume "t \<in> set ts"
      with assms have "NormalizedTicket t" by blast
      then have "assignee_credit u t = fixed_by u t" by (rule assignee_credit_eq)
      then show "(reporter_credit u t \<or> assignee_credit u t) = (reported_by u t \<or> fixed_by u t)"
        by (simp only: reporter_credit_eq)
    qed
    then show "u \<in> credited_users ts \<longleftrightarrow> u \<in> scoring_users ts"
      unfolding credited_users_def scoring_users_def by blast
  qed
  then show ?thesis by blast
qed

lemma filter_overwrite_other:
  "c \<noteq> k row \<Longrightarrow>
   filter (\<lambda>r. k r = c) (map (\<lambda>r. if k r = k row then row else r) table)
     = filter (\<lambda>r. k r = c) table"
  by (induction table) auto

lemma upsert1_other:
  "c \<noteq> k row \<Longrightarrow> filter (\<lambda>r. k r = c) (upsert1 k table row) = filter (\<lambda>r. k r = c) table"
  by (simp add: upsert1_def filter_overwrite_other)

lemma upsert_other:
  "c \<notin> k ` set rows \<Longrightarrow> filter (\<lambda>r. k r = c) (upsert k table rows) = filter (\<lambda>r. k r = c) table"
proof (induction rows arbitrary: table)
  case Nil
  then show ?case by (simp add: upsert_def)
next
  case (Cons row rows)
  then have "c \<noteq> k row" and "c \<notin> k ` set rows" by auto
  have "filter (\<lambda>r. k r = c) (upsert k table (row # rows))
      = filter (\<lambda>r. k r = c) (upsert k (upsert1 k table row) rows)"
    by (simp add: upsert_def)
  also have "\<dots> = filter (\<lambda>r. k r = c) (upsert1 k table row)"
    using \<open>c \<notin> k ` set rows\<close> by (rule Cons.IH)
  also have "\<dots> = filter (\<lambda>r. k r = c) table"
    using \<open>c \<noteq> k row\<close> by (rule upsert1_other)
  finally show ?case .
qed

lemma upsert1_key_unique:
  assumes "r \<in> set (upsert1 k table row)" and "k r = k row"
  shows "r = row"
proof (cases "k row \<in> k ` set table")
  case True
  with assms(1) obtain x where "x \<in> set table" and r: "r = (if k x = k row then row else x)"
    by (auto simp: upsert1_def)
  show ?thesis
  proof (cases "k x = k row")
    case True
    with r show ?thesis by simp
  next
    case False
    with r assms(2) show ?thesis by simp
  qed
next
  case False
  with assms(1) have "r \<in> set table \<or> r = row" by (auto simp: upsert1_def)
  moreover have "r \<notin> set table"
  proof
    assume "r \<in> set table"
    then have "k r \<in> k ` set table" by (rule imageI)
    with assms(2) False show False by simp
  qed
  ultimately show ?thesis by blast
qed

lemma upsert1_stored: "row \<in> set (upsert1 k table row)"
proof (cases "k row \<in> k ` set table")
  case True
  then obtain x where "x \<in> set table" and "k x = k row" by auto
  then have "(\<lambda>r. if k r = k row then row else r) x \<in> set (map (\<lambda>r. if k r = k row then row else r) table)"
    by (intro imageI[of x "set table" "\<lambda>r. if k r = k row then row else r", simplified set_map[symmetric]])
  with \<open>k x = k row\<close> True show ?thesis by (simp add: upsert1_def)
next
  case False
  then show ?thesis by (simp add: upsert1_def)
qed

lemma upsert1_same:
  "set (filter (\<lambda>r. k r = k row) (upsert1 k table row)) = {row}"
  using upsert1_key_unique [of _ k table row] upsert1_stored [of row k table] by auto

lemma upsert_same:
  "distinct (map k rows) \<Longrightarrow> row \<in> set rows \<Longrightarrow>
   set (filter (\<lambda>r. k r = k row) (upsert k table rows)) = {row}"
proof (induction rows arbitrary: table)
  case Nil
  then show ?case by simp
next
  case (Cons x rows)
  have step: "upsert k table (x # rows) = upsert k (upsert1 k table x) rows"
    by (simp add: upsert_def)
  show ?case
  proof (cases "row = x")
    case True
    with Cons.prems have "k row \<notin> k ` set rows" by simp
    then have "filter (\<lambda>r. k r = k row) (upsert k (upsert1 k table x) rows)
        = filter (\<lambda>r. k r = k row) (upsert1 k table x)"
      by (rule upsert_other)
    with True step show ?thesis by (simp only: upsert1_same)
  next
    case False
    with Cons.prems have "distinct (map k rows)" and "row \<in> set rows" by simp_all
    then have "set (filter (\<lambda>r. k r = k row) (upsert k (upsert1 k table x) rows)) = {row}"
      by (rule Cons.IH)
    with step show ?thesis by simp
  qed
qed

lemma updateUserScores_Works:
  "fate e SelectTickets = Works \<Longrightarrow> fate e UpsertScores = Works \<Longrightarrow>
   user_scores (snd (updateUserScores e s))
     = upsert user_name (user_scores s) (scoresArray (clock e ScoringUsers) (bugathon_tickets s))"
  by (simp add: updateUserScores_def Let_def request_def)

lemma updateUserScores_row_of:
  assumes "fate e SelectTickets = Works" and "fate e UpsertScores = Works"
    and "u \<in> credited_users (bugathon_tickets s)"
  shows "set (filter (\<lambda>r. user_name r = u) (user_scores (snd (updateUserScores e s))))
       = {score_of (clock e ScoringUsers) (bugathon_tickets s) u}"
proof -
  let ?rows = "scoresArray (clock e ScoringUsers) (bugathon_tickets s)"
  let ?row = "score_of (clock e ScoringUsers) (bugathon_tickets s) u"
  have "?row \<in> set ?rows" using assms(3) by (simp add: scoresArray_row)
  with distinct_scoresArray [of "clock e ScoringUsers" "bugathon_tickets s"]
  have "set (filter (\<lambda>r. user_name r = user_name ?row) (upsert user_name (user_scores s) ?rows)) = {?row}"
    by (rule upsert_same)
  with assms(1,2) show ?thesis by (simp add: updateUserScores_Works)
qed

text \<open>
  Claim C2. For every store whose tickets are NormalizedTicket rows, the rows the score
  aggregator builds have distinct names: exactly the names that occur as the present
  reporter name of a new bug or as the present, non-sentinel assignee name of a done
  ticket. In each row \<open>bugs_reported\<close> counts that user's new-bug tickets and
  \<open>user_reporter_points\<close> is the sum of their \<open>reporter_points\<close>, \<open>bugs_fixed\<close> counts
  the user's done tickets and \<open>user_assignee_points\<close> is the sum of their
  \<open>assignee_points\<close>, and \<open>total_points\<close> is the sum of the two point fields. The sums are
  those of the program: doubles added one by one, in the order in which the tickets were
  read, starting from 0. When the read and the upsert succeed, these rows are what
  \<^verbatim>\<open>updateUserScores\<close> upserts, and afterwards every such user has exactly one stored row
  value, the one built.
\<close>

theorem updateUserScores_aggregates:
  fixes e s
  defines "ts \<equiv> bugathon_tickets s"
  defines "rows \<equiv> scoresArray (clock e ScoringUsers) ts"
  assumes norm: "\<forall>t \<in> set ts. NormalizedTicket t"
  shows "distinct (map user_name rows)
    \<and> set (map user_name rows) = scoring_users ts
    \<and> (\<forall>r \<in> set rows.
          bugs_reported r = length (filter (reported_by (user_name r)) ts)
        \<and> user_reporter_points r
            = foldl (+) 0 (map reporter_points (filter (reported_by (user_name r)) ts))
        \<and> bugs_fixed r = length (filter (fixed_by (user_name r)) ts)
        \<and> user_assignee_points r
            = foldl (+) 0 (map assignee_points (filter (fixed_by (user_name r)) ts))
        \<and> total_points r = user_reporter_points r + user_assignee_points r)
    \<and> (fate e SelectTickets = Works \<and> fate e UpsertScores = Works \<longrightarrow>
          user_scores (snd (updateUserScores e s)) = upsert user_name (user_scores s) rows
        \<and> (\<forall>u \<in> scoring_users ts. \<exists>r \<in> set rows. user_name r = u
              \<and> set (filter (\<lambda>r. user_name r = u) (user_scores (snd (updateUserScores e s))))
                  = {r}))"
proof (intro conjI ballI impI)
  show "distinct (map user_name rows)" unfolding rows_def by (rule distinct_scoresArray)
  show "set (map user_name rows) = scoring_users ts"
    unfolding rows_def using norm by (simp only: set_user_names_scoresArray credited_users_normalized)
next
  fix r assume "r \<in> set rows"
  then have r: "r = score_of (clock e ScoringUsers) ts (user_name r)"
    unfolding rows_def by (simp add: scoresArray_row)
  have rep: "filter (reporter_credit (user_name r)) ts = filter (reported_by (user_name r)) ts"
    by (rule filter_reporter_credit)
  have fixd: "filter (assignee_credit (user_name r)) ts = filter (fixed_by (user_name r)) ts"
    using norm by (rule filter_assignee_credit)
  show "bugs_reported r = length (filter (reported_by (user_name r)) ts)"
    using score_of_fields(1) [of "clock e ScoringUsers" ts "user_name r"] r rep by simp
  show "user_reporter_points r
      = foldl (+) 0 (map reporter_points (filter (reported_by (user_name r)) ts))"
    using score_of_fields(3) [of "clock e ScoringUsers" ts "user_name r"] r rep by simp
  show "bugs_fixed r = length (filter (fixed_by (user_name r)) ts)"
    using score_of_fields(2) [of "clock e ScoringUsers" ts "user_name r"] r fixd by simp
  show "user_assignee_points r
      = foldl (+) 0 (map assignee_points (filter (fixed_by (user_name r)) ts))"
    using score_of_fields(4) [of "clock e ScoringUsers" ts "user_name r"] r fixd by simp
  show "total_points r = user_reporter_points r + user_assignee_points r"
    using score_of_fields(5) [of "clock e ScoringUsers" ts "user_name r"] r by simp
next
  assume w: "fate e SelectTickets = Works \<and> fate e UpsertScores = Works"
  then show "user_scores (snd (updateUserScores e s)) = upsert user_name (user_scores s) rows"
    unfolding rows_def ts_def by (simp add: updateUserScores_Works)
  fix u assume "u \<in> scoring_users ts"
  with norm have u: "u \<in> credited_users (bugathon_tickets s)"
    unfolding ts_def by (simp only: credited_users_normalized)
  let ?r = "score_of (clock e ScoringUsers) (bugathon_tickets s) u"
  from u have "?r \<in> set rows" unfolding rows_def ts_def by (simp add: scoresArray_row)
  moreover have "user_name ?r = u" by simp
  moreover
  have "set (filter (\<lambda>r. user_name r = u) (user_scores (snd (updateUserScores e s)))) = {?r}"
    using w [THEN conjunct1] w [THEN conjunct2] u by (rule updateUserScores_row_of)
  ultimately show "\<exists>r \<in> set rows. user_name r = u
      \<and> set (filter (\<lambda>r. user_name r = u) (user_scores (snd (updateUserScores e s)))) = {r}"
    by blast
qed

lemma row_A: "processTicket 0 ticket_A =
  \<lparr> key = ''BUG-1'', summary = ''[Bugathon New] crash'', is_new_bug = True, status = ''Open'',
    status_category = ''open'', reporter_id = ''u-alice'', reporter_name = ''alice'',
    assignee_id = None, assignee_name = ''Unassigned'', sprint_points = Num 5,
    reporter_points = Num (5 / 2), assignee_points = 0, created_at = 1000, resolved_at = None,
    priority = ''High'', issue_type = ''Bug'', last_updated = 0 \<rparr>"
  by (simp add: processTicket_def Let_def ticket_A_def alice_def case_defs num_or_def falsy_def
      str_or_def str_or_null_def half_of_5)

lemma row_B: "processTicket 0 ticket_B =
  \<lparr> key = ''BUG-2'', summary = ''memory leak'', is_new_bug = False, status = ''Done'',
    status_category = ''done'', reporter_id = ''u-alice'', reporter_name = ''alice'',
    assignee_id = Some ''u-bob'', assignee_name = ''bob'', sprint_points = Num 8,
    reporter_points = 0, assignee_points = Num 8, created_at = 2000, resolved_at = Some 3000,
    priority = ''Low'', issue_type = ''Bug'', last_updated = 0 \<rparr>"
  by (simp add: processTicket_def Let_def ticket_B_def alice_def bob_def case_defs num_or_def
      falsy_def str_or_def str_or_null_def truthy_def)

lemma scores_AB:
  "scoresArray 7 [processTicket 0 ticket_A, processTicket 0 ticket_B] =
    [\<lparr> user_name = ''alice'', bugs_reported = 1, bugs_fixed = 0, user_reporter_points = Num (5 / 2),
       user_assignee_points = 0, total_points = Num (5 / 2), badges = [Participant], updated_at = 7 \<rparr>,
     \<lparr> user_name = ''bob'', bugs_reported = 0, bugs_fixed = 1, user_reporter_points = 0,
       user_assignee_points = Num 8, total_points = Num 8, badges = [Participant], updated_at = 7 \<rparr>]"
  by (simp add: row_A row_B scoresArray_def accumulateScores_def forEach_body_def
      creditReporter_def creditAssignee_def truthy_def newUser_def finalizeUser_def
      calculateBadges_def Let_def sum_alice sum_bob)

lemma row_F:
  "\<not> falsy p \<Longrightarrow> processTicket 0 (done_by_bob k p) = bob_done_row k p"
  by (simp add: processTicket_def Let_def done_by_bob_def bob_done_row_def alice_def bob_def
      case_defs num_or_def str_or_def str_or_null_def truthy_def)

lemma rows_F:
  "processTicket 0 ticket_F1 = bob_done_row ''BUG-6'' d_0_3"
  "processTicket 0 ticket_F2 = bob_done_row ''BUG-7'' d_32_3"
  "processTicket 0 ticket_F3 = bob_done_row ''BUG-8'' d_17_4"
  unfolding ticket_F1_def ticket_F2_def ticket_F3_def js_literals
  by (simp_all add: row_F falsy_def d_0_3_def d_32_3_def d_17_4_def)


lemmas aggregator_defs = scoresArray_def accumulateScores_def forEach_body_def
  creditReporter_def creditAssignee_def truthy_def newUser_def finalizeUser_def
  calculateBadges_def Let_def bob_done_row_def

lemma scores_F123:
  "scoresArray now [bob_done_row ''BUG-6'' d_0_3, bob_done_row ''BUG-7'' d_32_3,
      bob_done_row ''BUG-8'' d_17_4] =
    [\<lparr> user_name = ''bob'', bugs_reported = 0, bugs_fixed = 3, user_reporter_points = 0,
       user_assignee_points = d_49_99999999999999, total_points = d_49_99999999999999,
       badges = [Speed_Demon], updated_at = now \<rparr>]"
  by (simp add: aggregator_defs sum_F123 below_50)

lemma scores_F132:
  "scoresArray now [bob_done_row ''BUG-6'' d_0_3, bob_done_row ''BUG-8'' d_17_4,
      bob_done_row ''BUG-7'' d_32_3] =
    [\<lparr> user_name = ''bob'', bugs_reported = 0, bugs_fixed = 3, user_reporter_points = 0,
       user_assignee_points = Num 50, total_points = Num 50,
       badges = [Rising_Star, Speed_Demon], updated_at = now \<rparr>]"
  by (simp add: aggregator_defs sum_F123 sum_F132)

text \<open>
  Witness for C2: three done tickets of bob worth 0.3, 32.3 and 17.4 points, over a
  store that holds an old score of carol. The aggregator upserts one row for bob; his
  points are the rounded running sum 49.99999999999999, short of the 50 of a Rising
  Star.
\<close>

theorem updateUserScores_aggregates_witness:
  "NormalizedTicket (processTicket 0 ticket_F1) \<and> NormalizedTicket (processTicket 0 ticket_F2)
   \<and> NormalizedTicket (processTicket 0 ticket_F3)
   \<and> fate env_ok SelectTickets = Works \<and> fate env_ok UpsertScores = Works
   \<and> scoring_users (bugathon_tickets store_F123) = {''bob''}
   \<and> user_scores (snd (updateUserScores env_ok store_F123)) =
       [carol_row,
        \<lparr> user_name = ''bob'', bugs_reported = 0, bugs_fixed = 3, user_reporter_points = 0,
          user_assignee_points = d_49_99999999999999, total_points = d_49_99999999999999,
          badges = [Speed_Demon], updated_at = 7 \<rparr>]"
proof -
  let ?ts = "bugathon_tickets store_F123"
  let ?bob = "\<lparr> user_name = ''bob'', bugs_reported = 0, bugs_fixed = 3, user_reporter_points = 0,
          user_assignee_points = d_49_99999999999999, total_points = d_49_99999999999999,
          badges = [Speed_Demon], updated_at = 7 \<rparr>"
  have n: "NormalizedTicket (processTicket 0 ticket_F1)"
    "NormalizedTicket (processTicket 0 ticket_F2)" "NormalizedTicket (processTicket 0 ticket_F3)"
    unfolding NormalizedTicket_def by blast+
  then have h: "\<forall>t \<in> set ?ts. NormalizedTicket t" by (simp add: store_F123_def)
  have w: "fate env_ok SelectTickets = Works \<and> fate env_ok UpsertScores = Works"
    by (simp add: env_ok_def)
  have rows: "scoresArray (clock env_ok ScoringUsers) ?ts = [?bob]"
    by (simp add: store_F123_def rows_F scores_F123 env_ok_def)
  note r = updateUserScores_aggregates [OF h, of env_ok]
  from r have "set (map user_name (scoresArray (clock env_ok ScoringUsers) ?ts)) = scoring_users ?ts"
    by blast
  then have users: "scoring_users ?ts = {''bob''}" by (simp add: rows)
  from r w have "user_scores (snd (updateUserScores env_ok store_F123))
      = upsert user_name (user_scores store_F123) (scoresArray (clock env_ok ScoringUsers) ?ts)"
    by blast
  moreover have "upsert user_name (user_scores store_F123)
      (scoresArray (clock env_ok ScoringUsers) ?ts) = [carol_row, ?bob]"
    unfolding rows by (simp add: store_F123_def upsert_def upsert1_def carol_row_def)
  ultimately have stored: "user_scores (snd (updateUserScores env_ok store_F123)) = [carol_row, ?bob]"
    by (rule trans)
  from n w users stored show ?thesis by blast
qed

subsection \<open>The score aggregator: frame, determinism and the sentinel\<close>





lemma length_filter_mset:
  "mset xs = mset ys \<Longrightarrow> length (filter P xs) = length (filter P ys)"
  by (metis mset_filter size_mset)

lemma credited_users_mset:
  "mset xs = mset ys \<Longrightarrow> credited_users xs = credited_users ys"
  using mset_eq_setD [of xs ys] by (simp add: credited_users_def)

lemma score_fields_score_of:
  assumes "filter (reporter_credit u) xs = filter (reporter_credit u) ys"
    and "filter (assignee_credit u) xs = filter (assignee_credit u) ys"
  shows "score_fields (score_of now xs u) = score_fields (score_of now' ys u)"
proof -
  have 1: "bugs_reported (score_of now xs u) = bugs_reported (score_of now' ys u)"
    and 2: "bugs_fixed (score_of now xs u) = bugs_fixed (score_of now' ys u)"
    and 3: "user_reporter_points (score_of now xs u) = user_reporter_points (score_of now' ys u)"
    and 4: "user_assignee_points (score_of now xs u) = user_assignee_points (score_of now' ys u)"
    using assms by (simp_all add: score_of_fields)
  from 3 4 have 5: "total_points (score_of now xs u) = total_points (score_of now' ys u)"
    by (simp add: score_of_fields(5))
  from 1 2 5 have "calculateBadges (score_of now xs u) = calculateBadges (score_of now' ys u)"
    by (rule calculateBadges_cong)
  then have 6: "badges (score_of now xs u) = badges (score_of now' ys u)"
    by (simp only: badges_score_of)
  from 1 2 3 4 5 6 show ?thesis by (simp add: score_fields_def)
qed

lemma stored_F123:
  "user_scores (snd (updateUserScores env_ok store_F123)) =
     [carol_row,
      \<lparr> user_name = ''bob'', bugs_reported = 0, bugs_fixed = 3, user_reporter_points = 0,
        user_assignee_points = d_49_99999999999999, total_points = d_49_99999999999999,
        badges = [Speed_Demon], updated_at = 7 \<rparr>]"
proof -
  have "user_scores (snd (updateUserScores env_ok store_F123))
      = upsert user_name (user_scores store_F123)
          (scoresArray (clock env_ok ScoringUsers) (bugathon_tickets store_F123))"
    by (rule updateUserScores_Works) (simp_all add: env_ok_def)
  also have "scoresArray (clock env_ok ScoringUsers) (bugathon_tickets store_F123) =
      [\<lparr> user_name = ''bob'', bugs_reported = 0, bugs_fixed = 3, user_reporter_points = 0,
        user_assignee_points = d_49_99999999999999, total_points = d_49_99999999999999,
        badges = [Speed_Demon], updated_at = 7 \<rparr>]"
    by (simp add: store_F123_def rows_F scores_F123 env_ok_def)
  finally show ?thesis by (simp add: store_F123_def upsert_def upsert1_def carol_row_def)
qed

lemma stored_F132:
  "user_scores (snd (updateUserScores env_ok store_F132)) =
     [\<lparr> user_name = ''bob'', bugs_reported = 0, bugs_fixed = 3, user_reporter_points = 0,
        user_assignee_points = Num 50, total_points = Num 50,
        badges = [Rising_Star, Speed_Demon], updated_at = 7 \<rparr>]"
proof -
  have "user_scores (snd (updateUserScores env_ok store_F132))
      = upsert user_name (user_scores store_F132)
          (scoresArray (clock env_ok ScoringUsers) (bugathon_tickets store_F132))"
    by (rule updateUserScores_Works) (simp_all add: env_ok_def)
  also have "scoresArray (clock env_ok ScoringUsers) (bugathon_tickets store_F132) =
      [\<lparr> user_name = ''bob'', bugs_reported = 0, bugs_fixed = 3, user_reporter_points = 0,
        user_assignee_points = Num 50, total_points = Num 50,
        badges = [Rising_Star, Speed_Demon], updated_at = 7 \<rparr>]"
    by (simp add: store_F132_def rows_F scores_F132 env_ok_def)
  finally show ?thesis by (simp add: store_F132_def upsert_def upsert1_def)
qed

text \<open>
  Counterexample to C8 as stated: the same three tickets of bob, read as 0.3, 32.3, 17.4
  in one run and as 0.3, 17.4, 32.3 in the other. The ticket sets are equal, and both
  runs succeed. The first run gives bob 49.99999999999999 assignee points and the badge
  Speed Demon alone; the second gives him 50 and the badge Rising Star as well. The read
  \<^verbatim>\<open>select("*")\<close> fixes no order.
\<close>

theorem updateUserScores_order_counterexample:
  "mset (bugathon_tickets store_F123) = mset (bugathon_tickets store_F132)
   \<and> map score_fields (filter (\<lambda>r. user_name r = ''bob'')
         (user_scores (snd (updateUserScores env_ok store_F123))))
       = [(0, 3, 0, d_49_99999999999999, d_49_99999999999999, [Speed_Demon])]
   \<and> map score_fields (filter (\<lambda>r. user_name r = ''bob'')
         (user_scores (snd (updateUserScores env_ok store_F132))))
       = [(0, 3, 0, Num 50, Num 50, [Rising_Star, Speed_Demon])]
   \<and> d_49_99999999999999 \<noteq> Num 50"
proof -
  have "mset (bugathon_tickets store_F123) = mset (bugathon_tickets store_F132)"
    by (simp add: store_F123_def store_F132_def)
  moreover have "map score_fields (filter (\<lambda>r. user_name r = ''bob'')
         (user_scores (snd (updateUserScores env_ok store_F123))))
       = [(0, 3, 0, d_49_99999999999999, d_49_99999999999999, [Speed_Demon])]"
    by (simp add: stored_F123 carol_row_def score_fields_def)
  moreover have "map score_fields (filter (\<lambda>r. user_name r = ''bob'')
         (user_scores (snd (updateUserScores env_ok store_F132))))
       = [(0, 3, 0, Num 50, Num 50, [Rising_Star, Speed_Demon])]"
    by (simp add: stored_F132 score_fields_def)
  moreover have "d_49_99999999999999 \<noteq> Num 50" by (rule below_50(3))
  ultimately show ?thesis by (intro conjI)
qed

text \<open>
  Claim C8, as the code has it. Take two runs of the score aggregator over the same
  tickets, each starting from any stored scores and at any time, whose read and upsert
  succeed. For every user the loop credits, each run leaves exactly one row value under
  that user's name. The two rows agree on \<open>bugs_reported\<close> and \<open>bugs_fixed\<close>. When the
  tickets credited to the user were read in the same relative order by both runs (as
  they are when both runs read the same rows in the same order), the two rows agree on
  all of \<open>bugs_reported\<close>, \<open>bugs_fixed\<close>, both point fields, \<open>total_points\<close> and \<open>badges\<close>.
\<close>

theorem updateUserScores_deterministic:
  assumes "mset (bugathon_tickets s1) = mset (bugathon_tickets s2)"
    and "fate e1 SelectTickets = Works" and "fate e1 UpsertScores = Works"
    and "fate e2 SelectTickets = Works" and "fate e2 UpsertScores = Works"
    and "u \<in> credited_users (bugathon_tickets s1)"
  shows "\<exists>r1 r2.
      set (filter (\<lambda>r. user_name r = u) (user_scores (snd (updateUserScores e1 s1)))) = {r1}
    \<and> set (filter (\<lambda>r. user_name r = u) (user_scores (snd (updateUserScores e2 s2)))) = {r2}
    \<and> bugs_reported r1 = bugs_reported r2 \<and> bugs_fixed r1 = bugs_fixed r2
    \<and> (filter (reporter_credit u) (bugathon_tickets s1)
           = filter (reporter_credit u) (bugathon_tickets s2)
         \<and> filter (assignee_credit u) (bugathon_tickets s1)
           = filter (assignee_credit u) (bugathon_tickets s2)
         \<longrightarrow> score_fields r1 = score_fields r2)"
proof -
  let ?r1 = "score_of (clock e1 ScoringUsers) (bugathon_tickets s1) u"
  let ?r2 = "score_of (clock e2 ScoringUsers) (bugathon_tickets s2) u"
  from assms(1,6) have u2: "u \<in> credited_users (bugathon_tickets s2)"
    using credited_users_mset [of "bugathon_tickets s1" "bugathon_tickets s2"] by simp
  have "set (filter (\<lambda>r. user_name r = u) (user_scores (snd (updateUserScores e1 s1)))) = {?r1}"
    using assms(2,3,6) by (rule updateUserScores_row_of)
  moreover have "set (filter (\<lambda>r. user_name r = u) (user_scores (snd (updateUserScores e2 s2)))) = {?r2}"
    using assms(4,5) u2 by (rule updateUserScores_row_of)
  moreover have "bugs_reported ?r1 = bugs_reported ?r2" and "bugs_fixed ?r1 = bugs_fixed ?r2"
    using length_filter_mset [OF assms(1)] by (simp_all add: score_of_fields)
  moreover have "filter (reporter_credit u) (bugathon_tickets s1)
           = filter (reporter_credit u) (bugathon_tickets s2)
         \<and> filter (assignee_credit u) (bugathon_tickets s1)
           = filter (assignee_credit u) (bugathon_tickets s2)
         \<longrightarrow> score_fields ?r1 = score_fields ?r2"
    using score_fields_score_of [of u "bugathon_tickets s1" "bugathon_tickets s2"] by blast
  ultimately show ?thesis by blast
qed

lemma sum_list_indicator:
  fixes w :: "'b::comm_monoid_add"
  shows "distinct ks \<Longrightarrow> sum_list (map (\<lambda>u. if c = u then w else 0) ks) = (if c \<in> set ks then w else 0)"
  by (induction ks) auto

lemma sum_list_by_key:
  fixes f :: "'a \<Rightarrow> 'b::comm_monoid_add"
  assumes "distinct ks" and "\<forall>t \<in> set ts. Q t \<longrightarrow> n t \<in> set ks"
  shows "sum_list (map (\<lambda>u. sum_list (map f (filter (\<lambda>t. Q t \<and> n t = u) ts))) ks)
       = sum_list (map f (filter Q ts))"
  using assms(2)
proof (induction ts)
  case Nil
  then show ?case by simp
next
  case (Cons t ts)
  then have IH: "sum_list (map (\<lambda>u. sum_list (map f (filter (\<lambda>t. Q t \<and> n t = u) ts))) ks)
       = sum_list (map f (filter Q ts))"
    by simp
  have "sum_list (map (\<lambda>u. sum_list (map f (filter (\<lambda>t. Q t \<and> n t = u) (t # ts)))) ks)
      = sum_list (map (\<lambda>u. (if n t = u then (if Q t then f t else 0) else 0)
            + sum_list (map f (filter (\<lambda>t. Q t \<and> n t = u) ts))) ks)"
    by (rule arg_cong [where f = sum_list], rule map_cong) auto
  also have "\<dots> = sum_list (map (\<lambda>u. if n t = u then (if Q t then f t else 0) else 0) ks)
      + sum_list (map (\<lambda>u. sum_list (map f (filter (\<lambda>t. Q t \<and> n t = u) ts))) ks)"
    by (rule sum_list_addf)
  also have "\<dots> = (if n t \<in> set ks then (if Q t then f t else 0) else 0)
      + sum_list (map f (filter Q ts))"
    using assms(1) by (simp only: sum_list_indicator IH)
  also have "\<dots> = sum_list (map f (filter Q (t # ts)))"
    using Cons.prems by auto
  finally show ?case .
qed

lemma sum_list_ones: "sum_list (map (\<lambda>_. 1::nat) xs) = length xs"
  by (induction xs) auto

lemma assignee_credit_done_assigned:
  "assignee_credit u = (\<lambda>t. done_assigned t \<and> assignee_name t = u)"
  by (rule ext) (auto simp: assignee_credit_def done_assigned_def)

lemma creditAssignee_sentinel: "assignee_name t = ''Unassigned'' \<Longrightarrow> creditAssignee m t = m"
  by (simp add: creditAssignee_def)

lemma done_assigned_keys:
  "\<forall>t \<in> set ts. done_assigned t \<longrightarrow> assignee_name t \<in> set (map fst (accumulateScores ts))"
proof (intro ballI impI)
  fix t assume "t \<in> set ts" and "done_assigned t"
  then have "assignee_credit (assignee_name t) t" by (simp add: assignee_credit_done_assigned)
  with \<open>t \<in> set ts\<close> have "assignee_name t \<in> credited_users ts"
    unfolding credited_users_def by blast
  then show "assignee_name t \<in> set (map fst (accumulateScores ts))"
    by (simp only: set_fst_accumulateScores)
qed

lemma total_bugs_fixed:
  "sum_list (map bugs_fixed (scoresArray now ts)) = length (filter done_assigned ts)"
proof -
  have "sum_list (map bugs_fixed (scoresArray now ts))
      = sum_list (map (\<lambda>u. sum_list (map (\<lambda>_. 1::nat)
          (filter (\<lambda>t. done_assigned t \<and> assignee_name t = u) ts))) (map fst (accumulateScores ts)))"
    by (simp add: scoresArray_eq comp_def score_of_fields(2) assignee_credit_done_assigned
        sum_list_ones [simplified])
  also have "\<dots> = sum_list (map (\<lambda>_. 1::nat) (filter done_assigned ts))"
    using distinct_accumulateScores done_assigned_keys by (rule sum_list_by_key)
  finally show ?thesis by (simp only: sum_list_ones)
qed

lemma sum_list_singletons: "sum_list (map (\<lambda>t. {#t#}) xs) = mset xs"
  by (induction xs) simp_all

lemma credited_tickets_partition:
  "sum_list (map (\<lambda>r. mset (filter (\<lambda>t. done_assigned t \<and> assignee_name t = user_name r) ts))
       (scoresArray now ts))
     = mset (filter done_assigned ts)"
proof -
  have "sum_list (map (\<lambda>r. mset (filter (\<lambda>t. done_assigned t \<and> assignee_name t = user_name r) ts))
       (scoresArray now ts))
      = sum_list (map (\<lambda>u. sum_list (map (\<lambda>t. {#t#})
          (filter (\<lambda>t. done_assigned t \<and> assignee_name t = u) ts))) (map fst (accumulateScores ts)))"
    by (simp add: scoresArray_eq comp_def sum_list_singletons)
  also have "\<dots> = sum_list (map (\<lambda>t. {#t#}) (filter done_assigned ts))"
    using distinct_accumulateScores done_assigned_keys by (rule sum_list_by_key)
  finally show ?thesis by (simp only: sum_list_singletons)
qed

lemma sentinel_user_iff:
  "''Unassigned'' \<in> set (map user_name (scoresArray now ts))
     \<longleftrightarrow> (\<exists>t \<in> set ts. is_new_bug t \<and> reporter_name t = ''Unassigned'')"
proof -
  have "''Unassigned'' \<in> credited_users ts
     \<longleftrightarrow> (\<exists>t \<in> set ts. is_new_bug t \<and> reporter_name t = ''Unassigned'')"
    by (auto simp: credited_users_def reporter_credit_def assignee_credit_def truthy_def)
  then show ?thesis by (simp only: set_user_names_scoresArray)
qed

lemma row_fixed:
  assumes "r \<in> set (scoresArray now ts)"
  shows "bugs_fixed r = length (filter (\<lambda>t. done_assigned t \<and> assignee_name t = user_name r) ts)"
    and "user_assignee_points r
       = foldl (+) 0 (map assignee_points (filter (\<lambda>t. done_assigned t \<and> assignee_name t = user_name r) ts))"
proof -
  from assms have r: "r = score_of now ts (user_name r)" by (simp add: scoresArray_row)
  show "bugs_fixed r = length (filter (\<lambda>t. done_assigned t \<and> assignee_name t = user_name r) ts)"
    using score_of_fields(2) [of now ts "user_name r"] r
    by (simp add: assignee_credit_done_assigned)
  show "user_assignee_points r
       = foldl (+) 0 (map assignee_points (filter (\<lambda>t. done_assigned t \<and> assignee_name t = user_name r) ts))"
    using score_of_fields(4) [of now ts "user_name r"] r
    by (simp add: assignee_credit_done_assigned)
qed

lemma row_fixed_sentinel:
  assumes "r \<in> set (scoresArray now ts)" and "user_name r = ''Unassigned''"
  shows "bugs_fixed r = 0 \<and> user_assignee_points r = 0"
proof -
  have "filter (\<lambda>t. done_assigned t \<and> assignee_name t = ''Unassigned'') ts = []"
    by (simp add: done_assigned_def)
  with row_fixed [OF assms(1)] assms(2) show ?thesis by simp
qed

text \<open>
  Claim C9. The aggregator tells a missing assignee by comparing the name with the
  string \<open>Unassigned\<close>. So a ticket whose \<open>assignee_name\<close> is that string leaves the
  assignee side of the map as it was; every row's \<open>bugs_fixed\<close> and
  \<open>user_assignee_points\<close> count only done tickets whose assignee name is not the
  sentinel (the points being added in reading order); over all rows, \<open>bugs_fixed\<close> adds
  up to the number of those tickets, and the tickets whose points enter some row are
  exactly those tickets, each once; a row named \<open>Unassigned\<close> has 0 in both; and that name
  is among the rows exactly when some new bug was reported under it.
\<close>

theorem unassigned_sentinel_ignored:
  "(assignee_name t = ''Unassigned'' \<longrightarrow> creditAssignee m t = m)
   \<and> (\<forall>r \<in> set (scoresArray now ts).
        bugs_fixed r = length (filter (\<lambda>t. done_assigned t \<and> assignee_name t = user_name r) ts)
      \<and> user_assignee_points r = foldl (+) 0 (map assignee_points
            (filter (\<lambda>t. done_assigned t \<and> assignee_name t = user_name r) ts))
      \<and> (user_name r = ''Unassigned'' \<longrightarrow> bugs_fixed r = 0 \<and> user_assignee_points r = 0))
   \<and> sum_list (map bugs_fixed (scoresArray now ts)) = length (filter done_assigned ts)
   \<and> sum_list (map (\<lambda>r. mset (filter (\<lambda>t. done_assigned t \<and> assignee_name t = user_name r) ts))
         (scoresArray now ts))
       = mset (filter done_assigned ts)
   \<and> (''Unassigned'' \<in> set (map user_name (scoresArray now ts))
        \<longleftrightarrow> (\<exists>t \<in> set ts. is_new_bug t \<and> reporter_name t = ''Unassigned''))"
proof (intro conjI ballI impI)
  assume "assignee_name t = ''Unassigned''"
  then show "creditAssignee m t = m" by (rule creditAssignee_sentinel)
next
  fix r assume r: "r \<in> set (scoresArray now ts)"
  show "bugs_fixed r = length (filter (\<lambda>t. done_assigned t \<and> assignee_name t = user_name r) ts)"
    using r by (rule row_fixed(1))
  show "user_assignee_points r = foldl (+) 0 (map assignee_points
            (filter (\<lambda>t. done_assigned t \<and> assignee_name t = user_name r) ts))"
    using r by (rule row_fixed(2))
  {
    assume "user_name r = ''Unassigned''"
    with r show "bugs_fixed r = 0" using row_fixed_sentinel by blast
  }
  {
    assume "user_name r = ''Unassigned''"
    with r show "user_assignee_points r = 0" using row_fixed_sentinel by blast
  }
next
  show "sum_list (map bugs_fixed (scoresArray now ts)) = length (filter done_assigned ts)"
    by (rule total_bugs_fixed)
  show "sum_list (map (\<lambda>r. mset (filter (\<lambda>t. done_assigned t \<and> assignee_name t = user_name r) ts))
         (scoresArray now ts))
       = mset (filter done_assigned ts)"
    by (rule credited_tickets_partition)
  show "''Unassigned'' \<in> set (map user_name (scoresArray now ts))
        \<longleftrightarrow> (\<exists>t \<in> set ts. is_new_bug t \<and> reporter_name t = ''Unassigned'')"
    by (rule sentinel_user_iff)
qed

lemma row_D: "processTicket 0 ticket_D =
  \<lparr> key = ''BUG-4'', summary = ''[BUGATHON NEW] ghost'', is_new_bug = True, status = ''Done'',
    status_category = ''done'', reporter_id = ''u-x'', reporter_name = ''Unassigned'',
    assignee_id = None, assignee_name = ''Unassigned'', sprint_points = Num 4,
    reporter_points = Num 2, assignee_points = Num 4, created_at = 4000, resolved_at = Some 5000,
    priority = ''Low'', issue_type = ''Bug'', last_updated = 0 \<rparr>"
  by (simp add: processTicket_def Let_def ticket_D_def case_defs num_or_def falsy_def
      str_or_def str_or_null_def half_of_4)

text \<open>
  Witness for C9: a done ticket without assignee, reported as a new bug by a user named
  \<open>Unassigned\<close>. The user gets a row, through the report alone; nothing is counted as
  fixed.
\<close>

theorem unassigned_sentinel_ignored_witness:
  "assignee_name (processTicket 0 ticket_D) = ''Unassigned''
   \<and> status_category (processTicket 0 ticket_D) = ''done''
   \<and> creditAssignee [] (processTicket 0 ticket_D) = []
   \<and> (\<exists>row. row \<in> set (scoresArray 7 [processTicket 0 ticket_D])
        \<and> user_name row = ''Unassigned'' \<and> bugs_fixed row = 0 \<and> user_assignee_points row = 0)
   \<and> sum_list (map bugs_fixed (scoresArray 7 [processTicket 0 ticket_D])) = 0"
proof -
  let ?t = "processTicket 0 ticket_D"
  note r = unassigned_sentinel_ignored [of ?t "[]" 7 "[?t]"]
  have h1: "assignee_name ?t = ''Unassigned''" and h0: "status_category ?t = ''done''"
    by (simp_all add: row_D)
  from r h1 have c1: "creditAssignee [] ?t = []" by blast
  have "\<exists>t \<in> set [?t]. is_new_bug t \<and> reporter_name t = ''Unassigned''"
    by (simp add: row_D)
  with r have "''Unassigned'' \<in> set (map user_name (scoresArray 7 [?t]))" by blast
  then obtain row where row: "row \<in> set (scoresArray 7 [?t])" "user_name row = ''Unassigned''"
    by auto
  with r have zero: "bugs_fixed row = 0 \<and> user_assignee_points row = 0" by blast
  have none: "filter done_assigned [?t] = []" by (simp add: done_assigned_def row_D)
  from r have "sum_list (map bugs_fixed (scoresArray 7 [?t])) = length (filter done_assigned [?t])"
    by blast
  then have c3: "sum_list (map bugs_fixed (scoresArray 7 [?t])) = 0"
    by (simp only: none list.size)
  from h1 h0 c1 row zero c3 show ?thesis by blast
qed


text \<open>
  Witness for C8: the two scenario tickets read in either order, once over a store that
  holds an old score and once over an empty one, at different times. Alice is credited
  with one ticket, so her tickets come in the same relative order.
\<close>

theorem updateUserScores_deterministic_witness:
  "mset (bugathon_tickets store_AB) = mset (bugathon_tickets store_BA)
   \<and> fate env_ok SelectTickets = Works \<and> fate env_ok UpsertScores = Works
   \<and> ''alice'' \<in> credited_users (bugathon_tickets store_AB)
   \<and> filter (reporter_credit ''alice'') (bugathon_tickets store_AB)
       = filter (reporter_credit ''alice'') (bugathon_tickets store_BA)
   \<and> filter (assignee_credit ''alice'') (bugathon_tickets store_AB)
       = filter (assignee_credit ''alice'') (bugathon_tickets store_BA)
   \<and> (\<exists>r1 r2.
        set (filter (\<lambda>r. user_name r = ''alice'')
          (user_scores (snd (updateUserScores env_ok store_AB)))) = {r1}
      \<and> set (filter (\<lambda>r. user_name r = ''alice'')
          (user_scores (snd (updateUserScores (env_ok\<lparr> clock := (\<lambda>st. 99) \<rparr>) store_BA)))) = {r2}
      \<and> score_fields r1 = score_fields r2)"
proof -
  have h1: "mset (bugathon_tickets store_AB) = mset (bugathon_tickets store_BA)"
    by (simp add: store_AB_def store_BA_def)
  have w: "fate env_ok SelectTickets = Works" "fate env_ok UpsertScores = Works"
    "fate (env_ok\<lparr> clock := (\<lambda>st. 99) \<rparr>) SelectTickets = Works"
    "fate (env_ok\<lparr> clock := (\<lambda>st. 99) \<rparr>) UpsertScores = Works"
    by (simp_all add: env_ok_def)
  have "reporter_credit ''alice'' (processTicket 0 ticket_A)"
    by (simp add: reporter_credit_def row_A truthy_def)
  then have h2: "''alice'' \<in> credited_users (bugathon_tickets store_AB)"
    by (auto simp: credited_users_def store_AB_def)
  have o1: "filter (reporter_credit ''alice'') (bugathon_tickets store_AB)
       = filter (reporter_credit ''alice'') (bugathon_tickets store_BA)"
    by (simp add: store_AB_def store_BA_def reporter_credit_def row_A row_B)
  have o2: "filter (assignee_credit ''alice'') (bugathon_tickets store_AB)
       = filter (assignee_credit ''alice'') (bugathon_tickets store_BA)"
    by (simp add: store_AB_def store_BA_def assignee_credit_def row_A row_B)
  from updateUserScores_deterministic [OF h1 w h2] o1 o2
  have "\<exists>r1 r2.
        set (filter (\<lambda>r. user_name r = ''alice'')
          (user_scores (snd (updateUserScores env_ok store_AB)))) = {r1}
      \<and> set (filter (\<lambda>r. user_name r = ''alice'')
          (user_scores (snd (updateUserScores (env_ok\<lparr> clock := (\<lambda>st. 99) \<rparr>) store_BA)))) = {r2}
      \<and> score_fields r1 = score_fields r2"
    by blast
  with h1 w(1,2) h2 o1 o2 show ?thesis by blast
qed

subsection \<open>The daily statistics\<close>















subsection \<open>Granting an achievement\<close>

lemma filter_ach_key:
  "filter (\<lambda>a. ach_user_name a = u \<and> badge_name a = b) xs = filter (\<lambda>a. ach_key a = (u, b)) xs"
  by (simp add: ach_key_def)

lemma filter_absent: "c \<notin> k ` set table \<Longrightarrow> filter (\<lambda>r. k r = c) table = []"
  by (induction table) auto

lemma filter_key_distinct:
  "distinct (map k xs) \<Longrightarrow> c \<in> k ` set xs \<Longrightarrow> \<exists>a. filter (\<lambda>a. k a = c) xs = [a]"
proof (induction xs)
  case Nil
  then show ?case by simp
next
  case (Cons x xs)
  show ?case
  proof (cases "k x = c")
    case True
    with Cons.prems(1) have "c \<notin> k ` set xs" by auto
    then have "filter (\<lambda>a. k a = c) xs = []" by (rule filter_absent)
    with True show ?thesis by simp
  next
    case False
    with Cons.prems have "distinct (map k xs)" and "c \<in> k ` set xs" by auto
    then obtain a where "filter (\<lambda>a. k a = c) xs = [a]" using Cons.IH by blast
    with False show ?thesis by simp
  qed
qed

lemma single_found:
  "distinct (map k xs) \<Longrightarrow> c \<in> k ` set xs \<Longrightarrow> single (filter (\<lambda>a. k a = c) xs) \<noteq> None"
  using filter_key_distinct [of k xs c] by (auto simp: single_def)

lemma single_absent: "c \<notin> k ` set xs \<Longrightarrow> single (filter (\<lambda>a. k a = c) xs) = None"
  by (simp add: filter_absent single_def)

lemma grantAchievement_present:
  assumes "fate e SelectAchievement = Works" and "distinct (map ach_key (achievements s))"
    and "(u, b) \<in> ach_key ` set (achievements s)"
  shows "grantAchievement e u b d s = (None, request SelectAchievement s)"
proof -
  have "single (filter (\<lambda>a. ach_key a = (u, b)) (achievements s)) \<noteq> None"
    using assms(2,3) by (rule single_found)
  then obtain a where "single (filter (\<lambda>a. ach_key a = (u, b)) (achievements s)) = Some a"
    by blast
  with assms(1) show ?thesis
    by (simp add: grantAchievement_def Let_def filter_ach_key request_def)
qed

lemma grantAchievement_absent:
  assumes "fate e SelectAchievement = Works" and "(u, b) \<notin> ach_key ` set (achievements s)"
  shows "achievements (snd (grantAchievement e u b d s)) =
     (if fate e InsertAchievement = Works
      then achievements s @
        [\<lparr> ach_user_name = u, badge_name = b, badge_icon = takeWhile (\<lambda>c. c \<noteq> CHR '' '') b,
           description = d, earned_at = clock e CheckingAchievements \<rparr>]
      else achievements s)"
proof -
  have "single (filter (\<lambda>a. ach_key a = (u, b)) (achievements s)) = None"
    using assms(2) by (rule single_absent)
  with assms(1) show ?thesis
    by (cases "fate e InsertAchievement")
      (simp_all add: grantAchievement_def Let_def filter_ach_key request_def)
qed

lemma grantAchievement_unique:
  assumes "fate e SelectAchievement = Works" and "distinct (map ach_key (achievements s))"
  shows "distinct (map ach_key (achievements (snd (grantAchievement e u b d s))))"
proof (cases "(u, b) \<in> ach_key ` set (achievements s)")
  case True
  with assms have "grantAchievement e u b d s = (None, request SelectAchievement s)"
    by (rule grantAchievement_present)
  with assms(2) show ?thesis by (simp add: request_def)
next
  case False
  with assms(1) have "achievements (snd (grantAchievement e u b d s)) =
     (if fate e InsertAchievement = Works
      then achievements s @
        [\<lparr> ach_user_name = u, badge_name = b, badge_icon = takeWhile (\<lambda>c. c \<noteq> CHR '' '') b,
           description = d, earned_at = clock e CheckingAchievements \<rparr>]
      else achievements s)"
    by (rule grantAchievement_absent)
  with assms(2) False show ?thesis by (auto simp: ach_key_def)
qed

lemma grantAchievement_granted:
  assumes "fate e SelectAchievement = Works" and "fate e InsertAchievement = Works"
    and "distinct (map ach_key (achievements s))"
  shows "(u, b) \<in> ach_key ` set (achievements (snd (grantAchievement e u b d s)))"
proof (cases "(u, b) \<in> ach_key ` set (achievements s)")
  case True
  with assms(1,3) have "grantAchievement e u b d s = (None, request SelectAchievement s)"
    by (rule grantAchievement_present)
  with True show ?thesis by (simp add: request_def)
next
  case False
  with assms(1) have "achievements (snd (grantAchievement e u b d s)) =
     (if fate e InsertAchievement = Works
      then achievements s @
        [\<lparr> ach_user_name = u, badge_name = b, badge_icon = takeWhile (\<lambda>c. c \<noteq> CHR '' '') b,
           description = d, earned_at = clock e CheckingAchievements \<rparr>]
      else achievements s)"
    by (rule grantAchievement_absent)
  with assms(2) show ?thesis by (simp add: ach_key_def)
qed

text \<open>
  Granting is idempotent as long as the lookup is answered. Take a store with at most
  one achievement per (user, badge) pair and a grant whose lookup is answered. Then the
  grant keeps at most one row per pair; if the pair is already stored the grant only
  issues the lookup and changes no collection; and after a grant whose insert succeeds,
  a second grant of the same pair (at any later time, with any description) changes
  nothing, the pair has exactly one row, and if it was first stored by the first grant
  the row carries the first grant's \<open>earned_at\<close>.
\<close>

lemma grantAchievement_idempotent_if_answered:
  assumes sel: "fate e SelectAchievement = Works"
    and inv: "distinct (map ach_key (achievements s))"
  shows "distinct (map ach_key (achievements (snd (grantAchievement e u b d s))))
   \<and> ((u, b) \<in> ach_key ` set (achievements s) \<longrightarrow>
        grantAchievement e u b d s = (None, request SelectAchievement s))
   \<and> (fate e InsertAchievement = Works \<and> fate e' SelectAchievement = Works \<longrightarrow>
        achievements (snd (grantAchievement e' u b d' (snd (grantAchievement e u b d s))))
          = achievements (snd (grantAchievement e u b d s))
      \<and> length (filter (\<lambda>a. ach_key a = (u, b))
          (achievements (snd (grantAchievement e' u b d' (snd (grantAchievement e u b d s)))))) = 1
      \<and> ((u, b) \<notin> ach_key ` set (achievements s) \<longrightarrow>
           map earned_at (filter (\<lambda>a. ach_key a = (u, b))
             (achievements (snd (grantAchievement e' u b d' (snd (grantAchievement e u b d s))))))
           = [clock e CheckingAchievements]))"
proof (intro conjI impI)
  let ?s1 = "snd (grantAchievement e u b d s)"
  let ?s2 = "snd (grantAchievement e' u b d' ?s1)"
  show inv1: "distinct (map ach_key (achievements ?s1))"
    using sel inv by (rule grantAchievement_unique)
  {
    assume "(u, b) \<in> ach_key ` set (achievements s)"
    with sel inv show "grantAchievement e u b d s = (None, request SelectAchievement s)"
      by (rule grantAchievement_present)
  }
  {
    assume w: "fate e InsertAchievement = Works \<and> fate e' SelectAchievement = Works"
    with sel inv have stored: "(u, b) \<in> ach_key ` set (achievements ?s1)"
      by (simp add: grantAchievement_granted)
    from w inv1 stored have "grantAchievement e' u b d' ?s1 = (None, request SelectAchievement ?s1)"
      by (simp add: grantAchievement_present)
    then show same: "achievements ?s2 = achievements ?s1" by (simp add: request_def)
    from filter_key_distinct [OF inv1 stored]
    obtain a where "filter (\<lambda>a. ach_key a = (u, b)) (achievements ?s1) = [a]" ..
    then have "length (filter (\<lambda>a. ach_key a = (u, b)) (achievements ?s1)) = 1" by simp
    then show "length (filter (\<lambda>a. ach_key a = (u, b)) (achievements ?s2)) = 1"
      by (simp only: same)
    {
      assume absent: "(u, b) \<notin> ach_key ` set (achievements s)"
      with sel w have "achievements ?s1 = achievements s @
        [\<lparr> ach_user_name = u, badge_name = b, badge_icon = takeWhile (\<lambda>c. c \<noteq> CHR '' '') b,
           description = d, earned_at = clock e CheckingAchievements \<rparr>]"
        by (simp add: grantAchievement_absent)
      moreover from absent have "filter (\<lambda>a. ach_key a = (u, b)) (achievements s) = []"
        by (rule filter_absent)
      ultimately have "map earned_at (filter (\<lambda>a. ach_key a = (u, b)) (achievements ?s1))
           = [clock e CheckingAchievements]"
        by (simp add: ach_key_def)
      then show "map earned_at (filter (\<lambda>a. ach_key a = (u, b)) (achievements ?s2))
           = [clock e CheckingAchievements]"
        by (simp only: same)
    }
  }
qed

text \<open>
  Claim C7 does not hold of the code. \<^verbatim>\<open>grantAchievement\<close> takes \<^verbatim>\<open>data\<close> from the answer
  of its lookup and never looks at \<^verbatim>\<open>error\<close>, so a lookup that fails is taken for a pair
  that is absent, and the insert is issued. Alice holds the champion achievement, earned
  at time 3. A grant of the same pair at time 7 whose lookup fails throws nothing,
  issues the lookup and the insert, and leaves two rows for the pair, earned at 3 and
  at 7.
\<close>

theorem grantAchievement_duplicates_after_failed_lookup:
  "map earned_at (filter (\<lambda>a. ach_key a = (''alice'', Current_Champion))
      (achievements store_champion)) = [3]
   \<and> fst (grantAchievement (failing_env SelectAchievement (Fails (StoreError ''lookup failed'')))
        ''alice'' Current_Champion ''Leading the bugathon!'' store_champion) = None
   \<and> calls (snd (grantAchievement (failing_env SelectAchievement (Fails (StoreError ''lookup failed'')))
        ''alice'' Current_Champion ''Leading the bugathon!'' store_champion))
       = [SelectAchievement, InsertAchievement]
   \<and> map earned_at (filter (\<lambda>a. ach_key a = (''alice'', Current_Champion))
      (achievements (snd (grantAchievement
        (failing_env SelectAchievement (Fails (StoreError ''lookup failed'')))
        ''alice'' Current_Champion ''Leading the bugathon!'' store_champion)))) = [3, 7]"
  by (simp add: grantAchievement_def Let_def failing_env_def request_def store_champion_def
      ach_key_def)

subsection \<open>The orchestrator\<close>

lemma fetchJiraTickets_calls: "calls (snd (fetchJiraTickets e s)) = calls s @ [FetchJira]"
  by (simp add: fetchJiraTickets_def request_def)

lemma processTickets_calls: "calls (snd (processTickets e ts s)) = calls s @ [UpsertTickets]"
  by (cases "fate e UpsertTickets") (simp_all add: processTickets_def Let_def request_def)

lemma updateUserScores_calls:
  "\<exists>new. calls (snd (updateUserScores e s)) = calls s @ new \<and> subseq new [SelectTickets, UpsertScores]"
  by (cases "fate e SelectTickets"; cases "fate e UpsertScores")
    (simp_all add: updateUserScores_def Let_def request_def)

lemma updateDailyStats_calls:
  "\<exists>new. calls (snd (updateDailyStats e s)) = calls s @ new
     \<and> subseq new [SelectToday, SelectFixed, UpsertDaily]"
  by (cases "fate e SelectToday"; cases "fate e SelectFixed"; cases "fate e UpsertDaily")
    (simp_all add: updateDailyStats_def Let_def request_def)

lemma grantAchievement_calls:
  "\<exists>new. calls (snd (grantAchievement e u b d s)) = calls s @ new
     \<and> subseq new [SelectAchievement, InsertAchievement]"
  by (cases "fate e SelectAchievement"; cases "fate e InsertAchievement")
    (simp_all add: grantAchievement_def Let_def request_def)

lemma checkAchievements_calls:
  "\<exists>new. calls (snd (checkAchievements e s)) = calls s @ new
     \<and> subseq new [SelectUsers, SelectAchievement, InsertAchievement]"
proof (cases "fate e SelectUsers")
  case Works
  show ?thesis
  proof (cases "order_desc (user_scores (request SelectUsers s))")
    case Nil
    with Works have "calls (snd (checkAchievements e s)) = calls s @ [SelectUsers]"
      by (simp add: checkAchievements_def Let_def request_def)
    then show ?thesis by simp
  next
    case (Cons u us)
    with Works have "checkAchievements e s = grantAchievement e (user_name u) Current_Champion
        ''Leading the bugathon!'' (request SelectUsers s)"
      by (simp add: checkAchievements_def Let_def)
    moreover obtain new where "calls (snd (grantAchievement e (user_name u) Current_Champion
        ''Leading the bugathon!'' (request SelectUsers s))) = calls (request SelectUsers s) @ new"
      and "subseq new [SelectAchievement, InsertAchievement]"
      using grantAchievement_calls by blast
    ultimately have "calls (snd (checkAchievements e s)) = calls s @ (SelectUsers # new)"
      and "subseq (SelectUsers # new) [SelectUsers, SelectAchievement, InsertAchievement]"
      by (simp_all add: request_def)
    then show ?thesis by blast
  qed
next
  case (Fails err)
  then have "calls (snd (checkAchievements e s)) = calls s @ [SelectUsers]"
    by (simp add: checkAchievements_def Let_def request_def)
  then show ?thesis by simp
next
  case (Rejects err)
  then have "calls (snd (checkAchievements e s)) = calls s @ [SelectUsers]"
    by (simp add: checkAchievements_def Let_def request_def)
  then show ?thesis by simp
qed

lemma subseq_program_order:
  assumes "subseq n3 [SelectTickets, UpsertScores]"
    and "subseq n4 [SelectToday, SelectFixed, UpsertDaily]"
    and "subseq n5 [SelectUsers, SelectAchievement, InsertAchievement]"
  shows "subseq ([FetchJira, UpsertTickets] @ n3 @ n4 @ n5) program_order"
proof -
  have "subseq [FetchJira, UpsertTickets] [FetchJira, UpsertTickets]" by simp
  then have "subseq ([FetchJira, UpsertTickets] @ n3 @ n4 @ n5)
      ([FetchJira, UpsertTickets] @ [SelectTickets, UpsertScores]
        @ [SelectToday, SelectFixed, UpsertDaily]
        @ [SelectUsers, SelectAchievement, InsertAchievement])"
    using assms by (intro list_emb_append_mono)
  then show ?thesis by (simp add: program_order_def)
qed

lemma sync_fetch_failed:
  "jira e = Inl err \<Longrightarrow> syncBugathonData e s = (catch_block err, request FetchJira s)"
  by (simp add: syncBugathonData_def fetchJiraTickets_def)

lemma sync_write_failed:
  assumes "jira e = Inr tickets"
    and "fst (processTickets e tickets (request FetchJira s)) = Some err"
  shows "syncBugathonData e s = (catch_block err, snd (processTickets e tickets (request FetchJira s)))"
  using assms
  by (cases "processTickets e tickets (request FetchJira s)")
    (simp add: syncBugathonData_def fetchJiraTickets_def)

lemma sync_scores_failed:
  assumes "jira e = Inr tickets"
    and "processTickets e tickets (request FetchJira s) = (None, s2)"
    and "fst (updateUserScores e s2) = Some err"
  shows "syncBugathonData e s = (catch_block err, snd (updateUserScores e s2))"
  using assms
  by (cases "updateUserScores e s2") (simp add: syncBugathonData_def fetchJiraTickets_def)

lemma sync_daily_failed:
  assumes "jira e = Inr tickets"
    and "processTickets e tickets (request FetchJira s) = (None, s2)"
    and "updateUserScores e s2 = (None, s3)"
    and "fst (updateDailyStats e s3) = Some err"
  shows "syncBugathonData e s = (catch_block err, snd (updateDailyStats e s3))"
  using assms
  by (cases "updateDailyStats e s3") (simp add: syncBugathonData_def fetchJiraTickets_def)

lemma sync_achievements_failed:
  assumes "jira e = Inr tickets"
    and "processTickets e tickets (request FetchJira s) = (None, s2)"
    and "updateUserScores e s2 = (None, s3)"
    and "updateDailyStats e s3 = (None, s4)"
    and "fst (checkAchievements e s4) = Some err"
  shows "syncBugathonData e s = (catch_block err, snd (checkAchievements e s4))"
  using assms
  by (cases "checkAchievements e s4") (simp add: syncBugathonData_def fetchJiraTickets_def)

lemma sync_succeeded:
  assumes "jira e = Inr tickets"
    and "processTickets e tickets (request FetchJira s) = (None, s2)"
    and "updateUserScores e s2 = (None, s3)"
    and "updateDailyStats e s3 = (None, s4)"
    and "checkAchievements e s4 = (None, s5)"
  shows "syncBugathonData e s = (Inr (Success (length tickets)), s5)"
  using assms by (simp add: syncBugathonData_def fetchJiraTickets_def)

lemma sync_calls:
  "\<exists>new. calls (snd (syncBugathonData e s)) = calls s @ new \<and> subseq new program_order"
proof (cases "jira e")
  case (Inl err)
  then have "calls (snd (syncBugathonData e s)) = calls s @ [FetchJira]"
    by (simp add: sync_fetch_failed request_def)
  moreover have "subseq [FetchJira] program_order" by (simp add: program_order_def)
  ultimately show ?thesis by blast
next
  case (Inr tickets)
  obtain r2 s2 where p: "processTickets e tickets (request FetchJira s) = (r2, s2)" by force
  obtain r3 s3 where u: "updateUserScores e s2 = (r3, s3)" by force
  obtain r4 s4 where d: "updateDailyStats e s3 = (r4, s4)" by force
  obtain r5 s5 where c: "checkAchievements e s4 = (r5, s5)" by force
  have c2: "calls s2 = calls s @ [FetchJira, UpsertTickets]"
    using processTickets_calls [of e tickets "request FetchJira s"] p by (simp add: request_def)
  obtain n3 where c3: "calls s3 = calls s2 @ n3" and o3: "subseq n3 [SelectTickets, UpsertScores]"
    using updateUserScores_calls [of e s2] u by auto
  obtain n4 where c4: "calls s4 = calls s3 @ n4"
    and o4: "subseq n4 [SelectToday, SelectFixed, UpsertDaily]"
    using updateDailyStats_calls [of e s3] d by auto
  obtain n5 where c5: "calls s5 = calls s4 @ n5"
    and o5: "subseq n5 [SelectUsers, SelectAchievement, InsertAchievement]"
    using checkAchievements_calls [of e s4] c by auto
  have nil: "\<And>xs::call list. subseq [] xs" by simp
  show ?thesis
  proof (cases r2)
    case (Some err)
    with Inr p have "snd (syncBugathonData e s) = s2"
      using sync_write_failed [of e tickets s err] by simp
    with c2 have "calls (snd (syncBugathonData e s)) = calls s @ ([FetchJira, UpsertTickets] @ [] @ [] @ [])"
      by simp
    with subseq_program_order [OF nil nil nil] show ?thesis by blast
  next
    case None
    note r2 = None
    show ?thesis
    proof (cases r3)
      case (Some err)
      with Inr p r2 u have "snd (syncBugathonData e s) = s3"
        using sync_scores_failed [of e tickets s s2 err] by simp
      with c2 c3 have "calls (snd (syncBugathonData e s)) = calls s @ ([FetchJira, UpsertTickets] @ n3 @ [] @ [])"
        by simp
      with subseq_program_order [OF o3 nil nil] show ?thesis by blast
    next
      case None
      note r3 = None
      show ?thesis
      proof (cases r4)
        case (Some err)
        with Inr p r2 u r3 d have "snd (syncBugathonData e s) = s4"
          using sync_daily_failed [of e tickets s s2 s3 err] by simp
        with c2 c3 c4 have "calls (snd (syncBugathonData e s)) = calls s @ ([FetchJira, UpsertTickets] @ n3 @ n4 @ [])"
          by simp
        with subseq_program_order [OF o3 o4 nil] show ?thesis by blast
      next
        case None
        with Inr p r2 u r3 d c have "snd (syncBugathonData e s) = s5"
          using sync_achievements_failed [of e tickets s s2 s3 s4]
            sync_succeeded [of e tickets s s2 s3 s4 s5]
          by (cases r5) simp_all
        with c2 c3 c4 c5 have "calls (snd (syncBugathonData e s)) = calls s @ ([FetchJira, UpsertTickets] @ n3 @ n4 @ n5)"
          by simp
        with subseq_program_order [OF o3 o4 o5] show ?thesis by blast
      qed
    qed
  qed
qed

lemma distinct_program_order: "distinct program_order"
  by (simp add: program_order_def)

lemma subseq_imp_distinct: "subseq xs ys \<Longrightarrow> distinct ys \<Longrightarrow> distinct xs"
  using subseqs_distinctD [of xs ys] by simp

lemma subseq_imp_subset: "subseq xs ys \<Longrightarrow> set xs \<subseteq> set ys"
proof -
  assume "subseq xs ys"
  then have "set xs \<in> set ` set (subseqs ys)" by simp
  then show ?thesis by (simp only: subseqs_powset Pow_iff)
qed

lemma fst_processTickets:
  "fst (processTickets e ts s) =
     (case fate e UpsertTickets of
        Works \<Rightarrow> None
      | Fails err \<Rightarrow> if err = Nullish then None else Some err
      | Rejects err \<Rightarrow> Some err)"
  by (cases "fate e UpsertTickets") (simp_all add: processTickets_def Let_def)

lemma fst_updateUserScores:
  "fst (updateUserScores e s) =
     (case fate e SelectTickets of
        Rejects err \<Rightarrow> Some err
      | Fails err \<Rightarrow> None
      | Works \<Rightarrow> (case fate e UpsertScores of Rejects err \<Rightarrow> Some err | _ \<Rightarrow> None))"
  by (cases "fate e SelectTickets"; cases "fate e UpsertScores")
    (simp_all add: updateUserScores_def Let_def)

lemma fst_updateDailyStats:
  "fst (updateDailyStats e s) =
     (case fate e SelectToday of
        Rejects err \<Rightarrow> Some err
      | _ \<Rightarrow> (case fate e SelectFixed of
                Rejects err \<Rightarrow> Some err
              | _ \<Rightarrow> (case fate e UpsertDaily of Rejects err \<Rightarrow> Some err | _ \<Rightarrow> None)))"
  by (cases "fate e SelectToday"; cases "fate e SelectFixed"; cases "fate e UpsertDaily")
    (simp_all add: updateDailyStats_def Let_def)

lemma fst_grantAchievement:
  "\<forall>c err. fate e c \<noteq> Rejects err \<Longrightarrow> fst (grantAchievement e u b d s) = None"
  by (cases "fate e SelectAchievement"; cases "fate e InsertAchievement")
    (simp_all add: grantAchievement_def Let_def)

lemma fst_checkAchievements_rejected:
  "fate e SelectUsers = Rejects err \<Longrightarrow> fst (checkAchievements e s) = Some err"
  by (simp add: checkAchievements_def Let_def)

lemma fst_checkAchievements:
  assumes "\<forall>c err. fate e c \<noteq> Rejects err"
  shows "fst (checkAchievements e s) = None"
proof (cases "fate e SelectUsers")
  case Works
  then show ?thesis
    using fst_grantAchievement [OF assms]
    by (simp add: checkAchievements_def Let_def split: list.splits)
next
  case (Fails err)
  then show ?thesis by (simp add: checkAchievements_def Let_def)
next
  case (Rejects err)
  with assms show ?thesis by simp
qed

text \<open>
  An answer \<^verbatim>\<open>{ data: null, error }\<close> of any request but the ticket upsert does not
  stop the run: without a rejected promise, and with the ticket upsert accepted, the run
  reports success.
\<close>

lemma sync_swallows_store_errors:
  assumes "jira e = Inr tickets" and "fate e UpsertTickets = Works"
    and "\<forall>c err. fate e c \<noteq> Rejects err"
  shows "fst (syncBugathonData e s) = Inr (Success (length tickets))"
proof -
  obtain s2 where p: "processTickets e tickets (request FetchJira s) = (None, s2)"
    using fst_processTickets [of e tickets "request FetchJira s"] assms(2)
    by (cases "processTickets e tickets (request FetchJira s)") simp
  obtain s3 where u: "updateUserScores e s2 = (None, s3)"
    using fst_updateUserScores [of e s2] assms(3)
    by (cases "updateUserScores e s2") (simp split: fate.splits)
  obtain s4 where d: "updateDailyStats e s3 = (None, s4)"
    using fst_updateDailyStats [of e s3] assms(3)
    by (cases "updateDailyStats e s3") (simp split: fate.splits)
  obtain s5 where c: "checkAchievements e s4 = (None, s5)"
    using fst_checkAchievements [OF assms(3), of s4]
    by (cases "checkAchievements e s4") simp
  from assms(1) p u d c show ?thesis by (simp add: sync_succeeded)
qed

text \<open>
  What a run does. It returns \<open>Success n\<close>, with \<open>n\<close> the number of tickets fetched,
  when none of the five steps throws. When a step throws, the run ends as the \<^verbatim>\<open>catch\<close>
  block ends for the thrown value, and the store is as the throwing step left it, so no
  later step ran: the requests issued stop with those of the throwing step. In every
  run the requests issued follow the program order and none is issued twice.
\<close>

lemma sync_outcomes:
  "(jira e = Inl err \<longrightarrow> syncBugathonData e s = (catch_block err, request FetchJira s))
   \<and> (jira e = Inr tickets
        \<and> fst (processTickets e tickets (request FetchJira s)) = Some err \<longrightarrow>
          syncBugathonData e s = (catch_block err, snd (processTickets e tickets (request FetchJira s)))
        \<and> calls (snd (syncBugathonData e s)) = calls s @ [FetchJira, UpsertTickets])
   \<and> (jira e = Inr tickets
        \<and> processTickets e tickets (request FetchJira s) = (None, s2)
        \<and> fst (updateUserScores e s2) = Some err \<longrightarrow>
          syncBugathonData e s = (catch_block err, snd (updateUserScores e s2))
        \<and> set (calls (snd (syncBugathonData e s)))
            \<subseteq> set (calls s) \<union> {FetchJira, UpsertTickets, SelectTickets, UpsertScores})
   \<and> (jira e = Inr tickets
        \<and> processTickets e tickets (request FetchJira s) = (None, s2)
        \<and> updateUserScores e s2 = (None, s3)
        \<and> fst (updateDailyStats e s3) = Some err \<longrightarrow>
          syncBugathonData e s = (catch_block err, snd (updateDailyStats e s3))
        \<and> set (calls (snd (syncBugathonData e s)))
            \<subseteq> set (calls s) \<union> {FetchJira, UpsertTickets, SelectTickets, UpsertScores,
                 SelectToday, SelectFixed, UpsertDaily})
   \<and> (jira e = Inr tickets
        \<and> processTickets e tickets (request FetchJira s) = (None, s2)
        \<and> updateUserScores e s2 = (None, s3)
        \<and> updateDailyStats e s3 = (None, s4)
        \<and> fst (checkAchievements e s4) = Some err \<longrightarrow>
          syncBugathonData e s = (catch_block err, snd (checkAchievements e s4)))
   \<and> (jira e = Inr tickets
        \<and> processTickets e tickets (request FetchJira s) = (None, s2)
        \<and> updateUserScores e s2 = (None, s3)
        \<and> updateDailyStats e s3 = (None, s4)
        \<and> checkAchievements e s4 = (None, s5) \<longrightarrow>
          syncBugathonData e s = (Inr (Success (length tickets)), s5))
   \<and> (\<exists>new. calls (snd (syncBugathonData e s)) = calls s @ new
        \<and> subseq new program_order \<and> distinct new)"
proof (intro conjI impI)
  assume "jira e = Inl err"
  then show "syncBugathonData e s = (catch_block err, request FetchJira s)"
    by (rule sync_fetch_failed)
next
  assume a: "jira e = Inr tickets
        \<and> fst (processTickets e tickets (request FetchJira s)) = Some err"
  then show r: "syncBugathonData e s = (catch_block err, snd (processTickets e tickets (request FetchJira s)))"
    by (simp add: sync_write_failed)
  show "calls (snd (syncBugathonData e s)) = calls s @ [FetchJira, UpsertTickets]"
    using processTickets_calls [of e tickets "request FetchJira s"] r
    by (simp add: request_def)
next
  assume a: "jira e = Inr tickets
        \<and> processTickets e tickets (request FetchJira s) = (None, s2)
        \<and> fst (updateUserScores e s2) = Some err"
  then show r: "syncBugathonData e s = (catch_block err, snd (updateUserScores e s2))"
    by (simp add: sync_scores_failed)
  from a have "calls s2 = calls s @ [FetchJira, UpsertTickets]"
    using processTickets_calls [of e tickets "request FetchJira s"] by (simp add: request_def)
  moreover obtain n3 where "calls (snd (updateUserScores e s2)) = calls s2 @ n3"
    and "subseq n3 [SelectTickets, UpsertScores]"
    using updateUserScores_calls [of e s2] by blast
  ultimately show "set (calls (snd (syncBugathonData e s)))
            \<subseteq> set (calls s) \<union> {FetchJira, UpsertTickets, SelectTickets, UpsertScores}"
    using r subseq_imp_subset [of n3 "[SelectTickets, UpsertScores]"] by auto
next
  assume a: "jira e = Inr tickets
        \<and> processTickets e tickets (request FetchJira s) = (None, s2)
        \<and> updateUserScores e s2 = (None, s3)
        \<and> fst (updateDailyStats e s3) = Some err"
  then show r: "syncBugathonData e s = (catch_block err, snd (updateDailyStats e s3))"
    by (simp add: sync_daily_failed)
  from a have "calls s2 = calls s @ [FetchJira, UpsertTickets]"
    using processTickets_calls [of e tickets "request FetchJira s"] by (simp add: request_def)
  moreover obtain n3 where "calls (snd (updateUserScores e s2)) = calls s2 @ n3"
    and "subseq n3 [SelectTickets, UpsertScores]"
    using updateUserScores_calls [of e s2] by blast
  moreover obtain n4 where "calls (snd (updateDailyStats e s3)) = calls s3 @ n4"
    and "subseq n4 [SelectToday, SelectFixed, UpsertDaily]"
    using updateDailyStats_calls [of e s3] by blast
  ultimately show "set (calls (snd (syncBugathonData e s)))
            \<subseteq> set (calls s) \<union> {FetchJira, UpsertTickets, SelectTickets, UpsertScores,
                 SelectToday, SelectFixed, UpsertDaily}"
    using r a subseq_imp_subset [of n3 "[SelectTickets, UpsertScores]"]
      subseq_imp_subset [of n4 "[SelectToday, SelectFixed, UpsertDaily]"]
    by auto
next
  assume "jira e = Inr tickets
        \<and> processTickets e tickets (request FetchJira s) = (None, s2)
        \<and> updateUserScores e s2 = (None, s3)
        \<and> updateDailyStats e s3 = (None, s4)
        \<and> fst (checkAchievements e s4) = Some err"
  then show "syncBugathonData e s = (catch_block err, snd (checkAchievements e s4))"
    by (simp add: sync_achievements_failed)
next
  assume "jira e = Inr tickets
        \<and> processTickets e tickets (request FetchJira s) = (None, s2)
        \<and> updateUserScores e s2 = (None, s3)
        \<and> updateDailyStats e s3 = (None, s4)
        \<and> checkAchievements e s4 = (None, s5)"
  then show "syncBugathonData e s = (Inr (Success (length tickets)), s5)"
    by (simp add: sync_succeeded)
next
  obtain new where "calls (snd (syncBugathonData e s)) = calls s @ new"
    and "subseq new program_order"
    using sync_calls by blast
  moreover from this have "distinct new"
    using distinct_program_order by (simp add: subseq_imp_distinct)
  ultimately show "\<exists>new. calls (snd (syncBugathonData e s)) = calls s @ new
        \<and> subseq new program_order \<and> distinct new"
    by blast
qed


text \<open>
  The \<^verbatim>\<open>catch\<close> block returns the failure object, with the value that was thrown, for
  every value but a circular structure and \<^verbatim>\<open>null\<close> or \<^verbatim>\<open>undefined\<close>; for these it throws.
\<close>

lemma catch_block_returns:
  "catch_block err = Inr (Failure err) \<longleftrightarrow> (\<forall>m. err \<noteq> Circular m) \<and> err \<noteq> Nullish"
  by (cases err) (simp_all add: catch_block_def isAxiosError_def JSON_stringify_def
      read_response_def)



lemma user_scores_processTickets: "user_scores (snd (processTickets e ts s)) = user_scores s"
  by (cases "fate e UpsertTickets") (simp_all add: processTickets_def Let_def request_def)

lemma user_scores_read_failed:
  "fate e SelectTickets = Fails err \<Longrightarrow> user_scores (snd (updateUserScores e s)) = user_scores s"
  by (simp add: updateUserScores_def Let_def request_def)

lemma user_scores_updateDailyStats: "user_scores (snd (updateDailyStats e s)) = user_scores s"
  by (cases "fate e SelectToday"; cases "fate e SelectFixed"; cases "fate e UpsertDaily")
    (simp_all add: updateDailyStats_def Let_def request_def)

lemma user_scores_grantAchievement:
  "user_scores (snd (grantAchievement e u b d s)) = user_scores s"
  by (cases "fate e SelectAchievement"; cases "fate e InsertAchievement")
    (simp_all add: grantAchievement_def Let_def request_def)

lemma user_scores_checkAchievements: "user_scores (snd (checkAchievements e s)) = user_scores s"
  by (cases "fate e SelectUsers")
    (simp_all add: checkAchievements_def Let_def request_def user_scores_grantAchievement
      split: list.splits)

lemma sync_final_store:
  assumes "jira e = Inr tickets"
  shows "snd (syncBugathonData e s) \<in>
    {snd (processTickets e tickets (request FetchJira s)),
     snd (updateUserScores e (snd (processTickets e tickets (request FetchJira s)))),
     snd (updateDailyStats e (snd (updateUserScores e
        (snd (processTickets e tickets (request FetchJira s)))))),
     snd (checkAchievements e (snd (updateDailyStats e (snd (updateUserScores e
        (snd (processTickets e tickets (request FetchJira s))))))))}"
proof -
  obtain r2 s2 where p: "processTickets e tickets (request FetchJira s) = (r2, s2)" by force
  obtain r3 s3 where u: "updateUserScores e s2 = (r3, s3)" by force
  obtain r4 s4 where d: "updateDailyStats e s3 = (r4, s4)" by force
  obtain r5 s5 where c: "checkAchievements e s4 = (r5, s5)" by force
  from assms p u d c have "snd (syncBugathonData e s) \<in> {s2, s3, s4, s5}"
    by (simp add: syncBugathonData_def fetchJiraTickets_def split: option.splits)
  with p u d c show ?thesis by simp
qed

lemma sync_user_scores_read_failed:
  assumes "jira e = Inr tickets" and "fate e SelectTickets = Fails err"
  shows "user_scores (snd (syncBugathonData e s)) = user_scores s"
proof -
  have "\<And>s'. s' \<in>
    {snd (processTickets e tickets (request FetchJira s)),
     snd (updateUserScores e (snd (processTickets e tickets (request FetchJira s)))),
     snd (updateDailyStats e (snd (updateUserScores e
        (snd (processTickets e tickets (request FetchJira s)))))),
     snd (checkAchievements e (snd (updateDailyStats e (snd (updateUserScores e
        (snd (processTickets e tickets (request FetchJira s))))))))}
    \<Longrightarrow> user_scores s' = user_scores s"
    using assms(2)
    by (auto simp: user_scores_processTickets user_scores_read_failed
        user_scores_updateDailyStats user_scores_checkAchievements request_def)
  with sync_final_store [OF assms(1), of s] show ?thesis by blast
qed

text \<open>
  Claim C4 does not hold of the code. Of all requests to the store only the ticket
  upsert in \<^verbatim>\<open>processTickets\<close> checks the \<^verbatim>\<open>error\<close> of the answer; the other steps
  take \<^verbatim>\<open>data\<close> and drop \<^verbatim>\<open>error\<close>. A failed read of the tickets during score
  aggregation, and a failed upsert of the scores, of the daily row or insert of the
  achievement, each end in a run that reports success; after the failed read the stored
  scores are the old ones.
\<close>

theorem store_errors_reported_as_success:
  "fst (syncBugathonData (failing_env SelectTickets (Fails (StoreError ''read failed''))) store_AB)
     = Inr (Success 2)
   \<and> user_scores (snd (syncBugathonData
        (failing_env SelectTickets (Fails (StoreError ''read failed''))) store_AB)) = [carol_row]
   \<and> fst (syncBugathonData (failing_env UpsertScores (Fails (StoreError ''write failed''))) store_AB)
     = Inr (Success 2)
   \<and> fst (syncBugathonData (failing_env UpsertDaily (Fails (StoreError ''write failed''))) store_AB)
     = Inr (Success 2)
   \<and> fst (syncBugathonData (failing_env InsertAchievement (Fails (StoreError ''write failed''))) store_AB)
     = Inr (Success 2)"
proof -
  have ok: "\<And>c f. f \<noteq> Works \<Longrightarrow> c \<noteq> UpsertTickets \<Longrightarrow> (\<forall>err. f \<noteq> Rejects err) \<Longrightarrow>
      fst (syncBugathonData (failing_env c f) store_AB) = Inr (Success 2)"
  proof -
    fix c f assume "f \<noteq> Works" and "c \<noteq> UpsertTickets" and "\<forall>err. f \<noteq> Rejects err"
    then have "jira (failing_env c f) = Inr [ticket_A, ticket_B]"
      and "fate (failing_env c f) UpsertTickets = Works"
      and "\<forall>c' err. fate (failing_env c f) c' \<noteq> Rejects err"
      by (simp_all add: failing_env_def)
    then have "fst (syncBugathonData (failing_env c f) store_AB) = Inr (Success (length [ticket_A, ticket_B]))"
      by (rule sync_swallows_store_errors)
    then show "fst (syncBugathonData (failing_env c f) store_AB) = Inr (Success 2)" by simp
  qed
  have "user_scores (snd (syncBugathonData
        (failing_env SelectTickets (Fails (StoreError ''read failed''))) store_AB)) = user_scores store_AB"
    by (rule sync_user_scores_read_failed [where tickets = "[ticket_A, ticket_B]"])
      (simp_all add: failing_env_def)
  then have "user_scores (snd (syncBugathonData
        (failing_env SelectTickets (Fails (StoreError ''read failed''))) store_AB)) = [carol_row]"
    by (simp add: store_AB_def)
  with ok [of "Fails (StoreError ''read failed'')" SelectTickets]
    ok [of "Fails (StoreError ''write failed'')" UpsertScores]
    ok [of "Fails (StoreError ''write failed'')" UpsertDaily]
    ok [of "Fails (StoreError ''write failed'')" InsertAchievement]
  show ?thesis by simp
qed

end
